theory Spec2Isabelle
  imports Complex_Main "HOL-Library.Word" "HOL-Library.Signed_Division" "HOL-Library.AList"
    "HOL-Library.Multiset"
begin

section \<open>Values shared by the queue manager and the worker pool\<close>

text \<open>
  Go's \<open>int\<close> (on the 64-bit targets the package is built for) and \<open>time.Duration\<close>
  (always \<open>int64\<close>, in nanoseconds) are 64-bit words read as two's complement:
  \<open>+\<close> wraps, comparisons go through \<open>sint\<close>.
\<close>

type_synonym go_int = "64 word"
type_synonym duration = "64 word"

text \<open>
  Go's \<open>/\<close> on signed integers truncates towards zero and panics on a zero divisor;
  the callers below test the divisor before they use \<open>go_quot\<close>.
\<close>

definition go_quot :: "64 word \<Rightarrow> 64 word \<Rightarrow> 64 word" where
  "go_quot a b = word_of_int (sint a sdiv sint b)"

definition Second :: duration where
  "Second = 1000000000"

text \<open>
  A \<open>time.Time\<close> is an instant, here in nanoseconds from a fixed origin. \<open>Time.Sub\<close>
  saturates at the ends of the \<open>Duration\<close> range; \<open>time.Since t\<close> is \<open>Now().Sub(t)\<close>,
  so it takes the reading of the clock as an argument.
\<close>

type_synonym time = int

definition time_Sub :: "time \<Rightarrow> time \<Rightarrow> duration" where
  "time_Sub t u =
     (let d = t - u
      in if d > 2 ^ 63 - 1 then word_of_int (2 ^ 63 - 1)
         else if d < - (2 ^ 63) then word_of_int (- (2 ^ 63))
         else word_of_int d)"

definition time_Since :: "time \<Rightarrow> time \<Rightarrow> duration" where
  "time_Since now t = time_Sub now t"

text \<open>
  Errors are values. \<open>errors.New\<close>/\<open>errors.Errorf\<close> build a message, \<open>errors.Wrap\<close>
  puts a message in front of a cause (and gives nil for a nil cause), a catcher's
  \<open>Resolve\<close> combines what it collected, and a cancelled context reports its own error.
\<close>

datatype error =
    ErrNew string
  | ErrWrap error string
  | ErrResolved "error list"
  | ErrContext

definition errors_Wrap :: "error option \<Rightarrow> string \<Rightarrow> error option" where
  "errors_Wrap err msg = (case err of None \<Rightarrow> None | Some e \<Rightarrow> Some (ErrWrap e msg))"

definition quoted :: "string \<Rightarrow> string" where
  "quoted s = [CHR 0x27] @ s @ [CHR 0x27]"

text \<open>
  \<open>grip.NewBasicCatcher\<close>: \<open>Add\<close> and \<open>Wrapf\<close> keep non-nil errors in order,
  \<open>Resolve\<close> is nil exactly when nothing was kept.
\<close>

type_synonym catcher = "error list"

definition catcher_Add :: "catcher \<Rightarrow> error option \<Rightarrow> catcher" where
  "catcher_Add c err = (case err of None \<Rightarrow> c | Some e \<Rightarrow> c @ [e])"

definition catcher_Wrapf :: "catcher \<Rightarrow> error option \<Rightarrow> string \<Rightarrow> catcher" where
  "catcher_Wrapf c err msg = catcher_Add c (errors_Wrap err msg)"

definition catcher_Resolve :: "catcher \<Rightarrow> error option" where
  "catcher_Resolve c = (if c = [] then None else Some (ErrResolved c))"

subsection \<open>Go maps\<close>

text \<open>
  A Go map is an association list with distinct keys: reading an absent key gives the
  zero value, storing replaces or adds. The order in which \<open>range\<close> visits a map is
  not specified, so every \<open>range\<close> over a map takes a number that selects the order:
  \<open>range_order n\<close> picks position \<open>n mod length\<close> first and goes on with the
  quotient on the rest, which reaches every order of the entries.
\<close>

definition map_get :: "'v \<Rightarrow> ('k \<times> 'v) list \<Rightarrow> 'k \<Rightarrow> 'v" where
  "map_get zero m k = (case map_of m k of None \<Rightarrow> zero | Some v \<Rightarrow> v)"

definition map_set :: "'k \<Rightarrow> 'v \<Rightarrow> ('k \<times> 'v) list \<Rightarrow> ('k \<times> 'v) list" where
  "map_set k v m = AList.update k v m"

definition map_delete :: "'k \<Rightarrow> ('k \<times> 'v) list \<Rightarrow> ('k \<times> 'v) list" where
  "map_delete k m = AList.delete k m"

function range_order :: "nat \<Rightarrow> 'a list \<Rightarrow> 'a list" where
  "range_order n [] = []"
| "range_order n (x # xs) =
     (let i = n mod Suc (length xs)
      in (x # xs) ! i # range_order (n div Suc (length xs)) (take i (x # xs) @ drop (Suc i) (x # xs)))"
  by pat_completeness auto
termination
  by (relation "measure (\<lambda>(n, xs). length xs)") auto

subsection \<open>Job information\<close>

text \<open>
  Modelled from the spec: the job-info types of package \<open>amboy\<close>, whose declarations are
  not among the sources. A job info has a logical ID and a type name, a status snapshot
  (in-progress flag, completed flag, error count, error messages, last modification), a
  timing snapshot (created, start, end) and a retry snapshot (retryable, needs retry,
  current attempt). The field names are the ones the manager reads: \<open>info.ID\<close>,
  \<open>info.Type.Name\<close>, \<open>info.Status.InProgress\<close>, \<open>info.Time.End\<close>,
  \<open>info.Retry.NeedsRetry\<close> and so on.
\<close>

record JobType =
  Name :: string

record JobStatusInfo =
  Status_InProgress :: bool
  Status_Completed :: bool
  ErrorCount :: go_int
  Status_Errors :: "string list"
  ModificationTime :: time

record JobTimeInfo =
  Created :: time
  Start :: time
  End :: time

record JobRetryInfo =
  Retryable :: bool
  NeedsRetry :: bool
  CurrentAttempt :: go_int

record JobInfo =
  Info_ID :: string
  Info_Type :: JobType
  Info_Status :: JobStatusInfo
  Info_Time :: JobTimeInfo
  Info_Retry :: JobRetryInfo

subsection \<open>Filters\<close>

text \<open>
  Modelled from the spec: the three filter types, declared in a file that is not among the
  sources. They are strings, each with a closed set of named values; the last constructor
  of each datatype stands for any other string.
\<close>

datatype StatusFilter =
  Pending | InProgress | Stale | Completed | Retrying | All | OtherStatusFilter string

datatype RuntimeFilter =
  Duration | Latency | Running | OtherRuntimeFilter string

datatype ErrorFilter =
  UniqueErrors | AllErrors | StatsOnly | OtherErrorFilter string

text \<open>
  Modelled from the spec: the \<open>Validate\<close> methods of the three filter types (their
  file is not among the sources). Each checks membership in its fixed value set and fails
  with an error naming the invalid value; the test \<open>TestFilterValidation\<close> expects nil
  for every named value and an error for the strings \<open>""\<close>, \<open>"foo"\<close>, \<open>"bleh"\<close>, \<open>"0"\<close>.
\<close>

definition StatusFilter_Validate :: "StatusFilter \<Rightarrow> error option" where
  "StatusFilter_Validate f =
     (case f of OtherStatusFilter s \<Rightarrow> Some (ErrNew (s @ '' is not a valid status filter''))
      | _ \<Rightarrow> None)"

definition RuntimeFilter_Validate :: "RuntimeFilter \<Rightarrow> error option" where
  "RuntimeFilter_Validate f =
     (case f of OtherRuntimeFilter s \<Rightarrow> Some (ErrNew (s @ '' is not a valid runtime filter''))
      | _ \<Rightarrow> None)"

definition ErrorFilter_Validate :: "ErrorFilter \<Rightarrow> error option" where
  "ErrorFilter_Validate f =
     (case f of OtherErrorFilter s \<Rightarrow> Some (ErrNew (s @ '' is not a valid error filter''))
      | _ \<Rightarrow> None)"

subsection \<open>The queue\<close>

text \<open>
  Modelled from the spec: the queue, an interface of package \<open>amboy\<close> whose declaration
  is not among the sources. Its methods are the fields of a record over an abstract queue
  state \<open>'q\<close>: \<open>JobInfo\<close> gives the entries its channel delivers,
  \<open>Info().LockTimeout\<close> is static configuration, \<open>Get\<close> answers with a job or not found,
  \<open>Complete\<close> may fail and changes the state. \<open>Queue_Retryable\<close> is the capability probe
  of \<open>amboy.WithRetryableQueue\<close>: the retry extension, or none. A \<open>Job\<close> is known by
  its \<open>ID()\<close> and carries the errors given to \<open>AddError\<close>.
\<close>

record Job =
  Job_ID :: string
  Job_Errors :: "error list"

record 'q RetryableQueue =
  GetAttempt :: "'q \<Rightarrow> string \<Rightarrow> go_int \<Rightarrow> error + Job"
  CompleteRetrying :: "'q \<Rightarrow> Job \<Rightarrow> error option \<times> 'q"

record 'q Queue =
  Queue_ID :: string
  Queue_JobInfo :: "'q \<Rightarrow> JobInfo list"
  Queue_LockTimeout :: duration
  Queue_Get :: "'q \<Rightarrow> string \<Rightarrow> Job option"
  Queue_Complete :: "'q \<Rightarrow> Job \<Rightarrow> error option \<times> 'q"
  Queue_Next :: "'q \<Rightarrow> Job option \<times> 'q"
  Queue_Retryable :: "'q RetryableQueue option"

text \<open>
  The functions that act on the queue, the completion functions of the manager and the
  methods of the pool, keep next to the queue state the record of the calls they make, in
  order, so that "does not call the queue" is a statement about that record.
\<close>

datatype qcall =
    Call_JobInfo
  | Call_Get string
  | Call_GetAttempt string go_int
  | Call_Complete Job
  | Call_CompleteRetrying Job
  | Call_Next

record 'q world =
  qstate :: 'q
  calls :: "qcall list"

definition called :: "qcall \<Rightarrow> 'q world \<Rightarrow> 'q world" where
  "called c w = w\<lparr>calls := calls w @ [c]\<rparr>"

text \<open>A function either returns or panics.\<close>

datatype 'a outcome = Returns 'a | Panics string

section \<open>The queue manager\<close>

subsection \<open>Reports\<close>

text \<open>
  Modelled from the spec: the report types, declared in a file that is not among the
  sources, with the fields the manager's composite literals set.
\<close>

record JobCounters =
  Counters_ID :: string
  Counters_Count :: go_int

record JobStatusReport =
  StatusReport_Filter :: StatusFilter
  StatusReport_Stats :: "JobCounters list"

record JobRuntimes =
  Runtimes_ID :: string
  Runtimes_Duration :: duration

record JobRuntimeReport =
  RuntimeReport_Filter :: RuntimeFilter
  RuntimeReport_Period :: duration
  RuntimeReport_Stats :: "JobRuntimes list"

record JobErrorsForType =
  Errors_ID :: string
  Errors_Count :: go_int
  Errors_Total :: go_int
  Errors_Average :: real
  Errors_Errors :: "string list"

record JobErrorsReport =
  ErrorsReport_Period :: duration
  ErrorsReport_FilteredByType :: bool
  ErrorsReport_Data :: "JobErrorsForType list"

text \<open>
  A manager method returns a pointer to a report and an error, one of them nil:
  \<open>Inl e\<close> is \<open>(nil, e)\<close> and \<open>Inr r\<close> is \<open>(&r, nil)\<close>.

  The clock is read by \<open>time.Since\<close> while the entries go by: \<open>clock i k\<close> is the
  reading of call number \<open>k\<close> of \<open>time.Since\<close> while entry number \<open>i\<close> of the
  enumeration is handled.
\<close>

type_synonym clock = "nat \<Rightarrow> nat \<Rightarrow> time"

subsection \<open>matchesStatusFilter and JobStatus\<close>

definition matchesStatusFilter :: "duration \<Rightarrow> time \<Rightarrow> JobInfo \<Rightarrow> StatusFilter \<Rightarrow> bool" where
  "matchesStatusFilter lockTimeout now info f =
     (case f of
        Pending \<Rightarrow> \<not> Status_InProgress (Info_Status info) \<and> \<not> Status_Completed (Info_Status info)
      | InProgress \<Rightarrow> Status_InProgress (Info_Status info)
      | Stale \<Rightarrow> Status_InProgress (Info_Status info)
                 \<and> lockTimeout <s time_Since now (ModificationTime (Info_Status info))
      | Completed \<Rightarrow> Status_Completed (Info_Status info)
      | Retrying \<Rightarrow> Status_Completed (Info_Status info) \<and> NeedsRetry (Info_Retry info)
      | All \<Rightarrow> True
      | OtherStatusFilter _ \<Rightarrow> False)"

fun JobStatus_loop ::
  "duration \<Rightarrow> clock \<Rightarrow> StatusFilter \<Rightarrow> nat \<Rightarrow> JobInfo list \<Rightarrow> (string \<times> go_int) list
     \<Rightarrow> (string \<times> go_int) list" where
  "JobStatus_loop lt clock f i [] counters = counters"
| "JobStatus_loop lt clock f i (info # rest) counters =
     (if \<not> matchesStatusFilter lt (clock i 0) info f
      then JobStatus_loop lt clock f (Suc i) rest counters
      else JobStatus_loop lt clock f (Suc i) rest
             (map_set (Name (Info_Type info))
                (map_get 0 counters (Name (Info_Type info)) + 1) counters))"

definition JobStatus ::
  "'q Queue \<Rightarrow> 'q \<Rightarrow> clock \<Rightarrow> nat \<Rightarrow> StatusFilter \<Rightarrow> error + JobStatusReport" where
  "JobStatus Q q clock seed f =
     (case StatusFilter_Validate f of
        Some err \<Rightarrow> Inl (ErrWrap err ''invalid filter'')
      | None \<Rightarrow>
          (let counters = JobStatus_loop (Queue_LockTimeout Q) clock f 0 (Queue_JobInfo Q q) []
           in Inr \<lparr>StatusReport_Filter = f,
                   StatusReport_Stats =
                     map (\<lambda>(jt, num). \<lparr>Counters_ID = jt, Counters_Count = num\<rparr>)
                       (range_order seed counters)\<rparr>))"

subsection \<open>RecentTiming\<close>

fun RecentTiming_loop ::
  "clock \<Rightarrow> duration \<Rightarrow> RuntimeFilter \<Rightarrow> nat \<Rightarrow> JobInfo list \<Rightarrow> (string \<times> duration list) list
     \<Rightarrow> error + (string \<times> duration list) list" where
  "RecentTiming_loop clock window f i [] counters = Inr counters"
| "RecentTiming_loop clock window f i (info # rest) counters =
     (case f of
        Running \<Rightarrow>
          if \<not> Status_InProgress (Info_Status info)
          then RecentTiming_loop clock window f (Suc i) rest counters
          else RecentTiming_loop clock window f (Suc i) rest
                 (map_set (Name (Info_Type info))
                    (map_get [] counters (Name (Info_Type info))
                       @ [time_Since (clock i 0) (Start (Info_Time info))]) counters)
      | Latency \<Rightarrow>
          if Status_Completed (Info_Status info)
          then RecentTiming_loop clock window f (Suc i) rest counters
          else if window <s time_Since (clock i 0) (Created (Info_Time info))
          then RecentTiming_loop clock window f (Suc i) rest counters
          else RecentTiming_loop clock window f (Suc i) rest
                 (map_set (Name (Info_Type info))
                    (map_get [] counters (Name (Info_Type info))
                       @ [time_Since (clock i 1) (Created (Info_Time info))]) counters)
      | Duration \<Rightarrow>
          if \<not> Status_Completed (Info_Status info)
          then RecentTiming_loop clock window f (Suc i) rest counters
          else if window <s time_Since (clock i 0) (End (Info_Time info))
          then RecentTiming_loop clock window f (Suc i) rest counters
          else RecentTiming_loop clock window f (Suc i) rest
                 (map_set (Name (Info_Type info))
                    (map_get [] counters (Name (Info_Type info))
                       @ [time_Sub (End (Info_Time info)) (Start (Info_Time info))]) counters)
      | OtherRuntimeFilter _ \<Rightarrow> Inl (ErrNew ''invalid job runtime filter''))"

text \<open>
  The second loop: the samples of a type are summed (wrapping) and divided by their
  number, converted to a \<open>Duration\<close>.
\<close>

fun RecentTiming_rows ::
  "(string \<times> duration list) list \<Rightarrow> JobRuntimes list \<Rightarrow> JobRuntimes list outcome" where
  "RecentTiming_rows [] runtimes = Returns runtimes"
| "RecentTiming_rows ((k, v) # rest) runtimes =
     (let total = foldl (+) 0 v
      in if (of_nat (length v) :: duration) = 0 then Panics ''integer divide by zero''
         else RecentTiming_rows rest
                (runtimes @ [\<lparr>Runtimes_ID = k,
                              Runtimes_Duration = go_quot total (of_nat (length v))\<rparr>]))"

definition RecentTiming ::
  "'q Queue \<Rightarrow> 'q \<Rightarrow> clock \<Rightarrow> nat \<Rightarrow> duration \<Rightarrow> RuntimeFilter
     \<Rightarrow> (error + JobRuntimeReport) outcome" where
  "RecentTiming Q q clock seed window f =
     (case RuntimeFilter_Validate f of
        Some err \<Rightarrow> Returns (Inl (ErrWrap err ''invalid filter''))
      | None \<Rightarrow>
          if window \<le>s Second
          then Returns (Inl (ErrNew ''must specify windows greater than one second''))
          else
            (case RecentTiming_loop clock window f 0 (Queue_JobInfo Q q) [] of
               Inl err \<Rightarrow> Returns (Inl err)
             | Inr counters \<Rightarrow>
                 (case RecentTiming_rows (range_order seed counters) [] of
                    Panics msg \<Rightarrow> Panics msg
                  | Returns runtimes \<Rightarrow>
                      Returns (Inr \<lparr>RuntimeReport_Filter = f,
                                    RuntimeReport_Period = window,
                                    RuntimeReport_Stats = runtimes\<rparr>))))"

subsection \<open>RecentErrors and RecentJobErrors\<close>

text \<open>
  \<open>float64(n)\<close> of an integer is the nearest number with a 53-bit significand, ties to
  the even significand. \<open>bit_len\<close> is the number of binary digits.
\<close>

function bit_len :: "int \<Rightarrow> nat" where
  "bit_len k = (if k \<le> 0 then 0 else Suc (bit_len (k div 2)))"
  by pat_completeness auto
termination
  by (relation "measure nat") auto

declare bit_len.simps [simp del]

definition round_float64 :: "int \<Rightarrow> int" where
  "round_float64 k =
     (if \<bar>k\<bar> < 2 ^ 53 then k
      else
        (let e = bit_len \<bar>k\<bar> - 53;
             m = \<bar>k\<bar> div 2 ^ e;
             r = \<bar>k\<bar> mod 2 ^ e;
             h = 2 ^ (e - 1);
             m' = (if h < r \<or> (r = h \<and> odd m) then m + 1 else m)
         in sgn k * (m' * 2 ^ e)))"

definition float64 :: "go_int \<Rightarrow> real" where
  "float64 x = real_of_int (round_float64 (sint x))"

definition zero_JobErrorsForType :: JobErrorsForType where
  "zero_JobErrorsForType =
     \<lparr>Errors_ID = [], Errors_Count = 0, Errors_Total = 0, Errors_Average = 0, Errors_Errors = []\<rparr>"

fun RecentErrors_loop ::
  "clock \<Rightarrow> duration \<Rightarrow> ErrorFilter \<Rightarrow> nat \<Rightarrow> JobInfo list \<Rightarrow> (string \<times> JobErrorsForType) list
     \<Rightarrow> error + (string \<times> JobErrorsForType) list" where
  "RecentErrors_loop clock window f i [] collector = Inr collector"
| "RecentErrors_loop clock window f i (info # rest) collector =
     (if \<not> Status_Completed (Info_Status info)
      then RecentErrors_loop clock window f (Suc i) rest collector
      else if ErrorCount (Info_Status info) = 0
      then RecentErrors_loop clock window f (Suc i) rest collector
      else if window <s time_Since (clock i 0) (End (Info_Time info))
      then RecentErrors_loop clock window f (Suc i) rest collector
      else
        (let val = map_get zero_JobErrorsForType collector (Name (Info_Type info))
         in if f = AllErrors \<or> f = UniqueErrors
            then RecentErrors_loop clock window f (Suc i) rest
                   (map_set (Name (Info_Type info))
                      (val\<lparr>Errors_Count := Errors_Count val + 1,
                            Errors_Total := Errors_Total val + ErrorCount (Info_Status info),
                            Errors_Errors := Errors_Errors val @ Status_Errors (Info_Status info)\<rparr>)
                      collector)
            else if f = StatsOnly
            then RecentErrors_loop clock window f (Suc i) rest
                   (map_set (Name (Info_Type info))
                      (val\<lparr>Errors_Count := Errors_Count val + 1,
                            Errors_Total := Errors_Total val + ErrorCount (Info_Status info)\<rparr>)
                      collector)
            else Inl (ErrNew ''operation is not supported'')))"

fun RecentJobErrors_loop ::
  "clock \<Rightarrow> string \<Rightarrow> duration \<Rightarrow> ErrorFilter \<Rightarrow> nat \<Rightarrow> JobInfo list
     \<Rightarrow> (string \<times> JobErrorsForType) list \<Rightarrow> error + (string \<times> JobErrorsForType) list" where
  "RecentJobErrors_loop clock jobType window f i [] collector = Inr collector"
| "RecentJobErrors_loop clock jobType window f i (info # rest) collector =
     (if \<not> Status_Completed (Info_Status info) \<or> ErrorCount (Info_Status info) = 0
      then RecentJobErrors_loop clock jobType window f (Suc i) rest collector
      else if window <s time_Since (clock i 0) (End (Info_Time info))
      then RecentJobErrors_loop clock jobType window f (Suc i) rest collector
      else if Name (Info_Type info) \<noteq> jobType
      then RecentJobErrors_loop clock jobType window f (Suc i) rest collector
      else
        (let val = map_get zero_JobErrorsForType collector (Name (Info_Type info))
         in if f = AllErrors \<or> f = UniqueErrors
            then RecentJobErrors_loop clock jobType window f (Suc i) rest
                   (map_set (Name (Info_Type info))
                      (val\<lparr>Errors_Count := Errors_Count val + 1,
                            Errors_Total := Errors_Total val + ErrorCount (Info_Status info),
                            Errors_Errors := Errors_Errors val @ Status_Errors (Info_Status info)\<rparr>)
                      collector)
            else if f = StatsOnly
            then RecentJobErrors_loop clock jobType window f (Suc i) rest
                   (map_set (Name (Info_Type info))
                      (val\<lparr>Errors_Count := Errors_Count val + 1,
                            Errors_Total := Errors_Total val + ErrorCount (Info_Status info)\<rparr>)
                      collector)
            else Inl (ErrNew ''operation is not supported'')))"

text \<open>
  The block under \<open>if f == UniqueErrors\<close>, the same text in both functions: every type's
  messages go into a map used as a set and come back in the order \<open>range\<close> visits that
  map (\<open>seedE k\<close> selects it for type \<open>k\<close>). The body touches only the entry of its own
  key, so the order of the outer \<open>range\<close> does not show in the result.
\<close>

definition uniqueErrors :: "nat \<Rightarrow> string list \<Rightarrow> string list" where
  "uniqueErrors seed es =
     map fst (range_order seed (foldl (\<lambda>errs e. map_set e () errs) [] es))"

definition dedupCollector ::
  "(string \<Rightarrow> nat) \<Rightarrow> (string \<times> JobErrorsForType) list \<Rightarrow> (string \<times> JobErrorsForType) list" where
  "dedupCollector seedE collector =
     map (\<lambda>(k, v). (k, v\<lparr>Errors_Errors := uniqueErrors (seedE k) (Errors_Errors v)\<rparr>)) collector"

text \<open>The last loop, the same text in both functions.\<close>

fun errorReports ::
  "(string \<times> JobErrorsForType) list \<Rightarrow> JobErrorsForType list \<Rightarrow> JobErrorsForType list outcome" where
  "errorReports [] reports = Returns reports"
| "errorReports ((k, v) # rest) reports =
     (if Errors_Count v = 0 then Panics ''integer divide by zero''
      else errorReports rest
             (reports @ [v\<lparr>Errors_ID := k,
                           Errors_Average := float64 (go_quot (Errors_Total v) (Errors_Count v))\<rparr>]))"

definition RecentErrors ::
  "'q Queue \<Rightarrow> 'q \<Rightarrow> clock \<Rightarrow> (string \<Rightarrow> nat) \<Rightarrow> nat \<Rightarrow> duration \<Rightarrow> ErrorFilter
     \<Rightarrow> (error + JobErrorsReport) outcome" where
  "RecentErrors Q q clock seedE seed window f =
     (case ErrorFilter_Validate f of
        Some err \<Rightarrow> Returns (Inl (ErrWrap err ''invalid filter''))
      | None \<Rightarrow>
          if window \<le>s Second
          then Returns (Inl (ErrNew ''must specify windows greater than one second''))
          else
            (case RecentErrors_loop clock window f 0 (Queue_JobInfo Q q) [] of
               Inl err \<Rightarrow> Returns (Inl err)
             | Inr collector \<Rightarrow>
                 (case errorReports
                         (range_order seed
                            (if f = UniqueErrors then dedupCollector seedE collector else collector))
                         [] of
                    Panics msg \<Rightarrow> Panics msg
                  | Returns reports \<Rightarrow>
                      Returns (Inr \<lparr>ErrorsReport_Period = window,
                                    ErrorsReport_FilteredByType = False,
                                    ErrorsReport_Data = reports\<rparr>))))"

definition RecentJobErrors ::
  "'q Queue \<Rightarrow> 'q \<Rightarrow> clock \<Rightarrow> (string \<Rightarrow> nat) \<Rightarrow> nat \<Rightarrow> string \<Rightarrow> duration \<Rightarrow> ErrorFilter
     \<Rightarrow> (error + JobErrorsReport) outcome" where
  "RecentJobErrors Q q clock seedE seed jobType window f =
     (case ErrorFilter_Validate f of
        Some err \<Rightarrow> Returns (Inl (ErrWrap err ''invalid filter''))
      | None \<Rightarrow>
          if window \<le>s Second
          then Returns (Inl (ErrNew ''must specify windows greater than one second''))
          else
            (case RecentJobErrors_loop clock jobType window f 0 (Queue_JobInfo Q q) [] of
               Inl err \<Rightarrow> Returns (Inl err)
             | Inr collector \<Rightarrow>
                 (case errorReports
                         (range_order seed
                            (if f = UniqueErrors then dedupCollector seedE collector else collector))
                         [] of
                    Panics msg \<Rightarrow> Panics msg
                  | Returns reports \<Rightarrow>
                      Returns (Inr \<lparr>ErrorsReport_Period = window,
                                    ErrorsReport_FilteredByType = True,
                                    ErrorsReport_Data = reports\<rparr>))))"

subsection \<open>getJob, completeJob and CompleteJobsByPattern\<close>

definition getJob :: "'q Queue \<Rightarrow> 'q world \<Rightarrow> JobInfo \<Rightarrow> (error + Job) \<times> 'q world" where
  "getJob Q w info =
     (case (if Retryable (Info_Retry info) then Queue_Retryable Q else None) of
        Some rq \<Rightarrow>
          (GetAttempt rq (qstate w) (Info_ID info) (CurrentAttempt (Info_Retry info)),
           called (Call_GetAttempt (Info_ID info) (CurrentAttempt (Info_Retry info))) w)
      | None \<Rightarrow>
          (case Queue_Get Q (qstate w) (Info_ID info) of
             None \<Rightarrow> (Inl (ErrNew ''could not find job''), called (Call_Get (Info_ID info)) w)
           | Some j \<Rightarrow> (Inr j, called (Call_Get (Info_ID info)) w)))"

definition completeJob :: "'q Queue \<Rightarrow> 'q world \<Rightarrow> Job \<Rightarrow> error option \<times> 'q world" where
  "completeJob Q w j =
     (let w1 = called (Call_Complete j) w;
          (err, q1) = Queue_Complete Q (qstate w1) j;
          w2 = w1\<lparr>qstate := q1\<rparr>
      in case err of
           Some e \<Rightarrow> (Some (ErrWrap e ''completing job''), w2)
         | None \<Rightarrow>
             (case Queue_Retryable Q of
                None \<Rightarrow> (errors_Wrap None ''marking retryable job as complete'', w2)
              | Some rq \<Rightarrow>
                  (let w3 = called (Call_CompleteRetrying j) w2;
                       (err', q2) = CompleteRetrying rq (qstate w3) j
                   in (errors_Wrap err' ''marking retryable job as complete'',
                       w3\<lparr>qstate := q2\<rparr>))))"

text \<open>
  \<open>regexp.Compile\<close> and \<open>MatchString\<close> belong to Go's library: they are parameters,
  a pattern compiles to a value of \<open>'r\<close> or is refused with an error.
\<close>

record 'r regexp =
  Compile :: "string \<Rightarrow> error + 'r"
  MatchString :: "'r \<Rightarrow> string \<Rightarrow> bool"

fun CompleteJobsByPattern_loop ::
  "'q Queue \<Rightarrow> ('r \<Rightarrow> string \<Rightarrow> bool) \<Rightarrow> 'r \<Rightarrow> clock \<Rightarrow> StatusFilter \<Rightarrow> nat \<Rightarrow> JobInfo list
     \<Rightarrow> 'q world \<Rightarrow> catcher \<Rightarrow> 'q world \<times> catcher" where
  "CompleteJobsByPattern_loop Q matchString regex clock f i [] w c = (w, c)"
| "CompleteJobsByPattern_loop Q matchString regex clock f i (info # rest) w c =
     (if \<not> matchString regex (Info_ID info)
      then CompleteJobsByPattern_loop Q matchString regex clock f (Suc i) rest w c
      else if \<not> matchesStatusFilter (Queue_LockTimeout Q) (clock i 0) info f
      then CompleteJobsByPattern_loop Q matchString regex clock f (Suc i) rest w c
      else
        (case getJob Q w info of
           (Inl err, w1) \<Rightarrow>
             CompleteJobsByPattern_loop Q matchString regex clock f (Suc i) rest w1
               (catcher_Wrapf c (Some err)
                  (''could not get job '' @ quoted (Info_ID info) @ '' from info''))
         | (Inr j, w1) \<Rightarrow>
             (case completeJob Q w1 j of
                (err, w2) \<Rightarrow>
                  CompleteJobsByPattern_loop Q matchString regex clock f (Suc i) rest w2
                    (catcher_Wrapf c err (''marking job '' @ quoted (Job_ID j) @ '' complete'')))))"

definition CompleteJobsByPattern ::
  "'q Queue \<Rightarrow> 'r regexp \<Rightarrow> clock \<Rightarrow> 'q world \<Rightarrow> StatusFilter \<Rightarrow> string
     \<Rightarrow> error option \<times> 'q world" where
  "CompleteJobsByPattern Q R clock w f pattern =
     (case StatusFilter_Validate f of
        Some err \<Rightarrow> (Some (ErrWrap err ''invalid filter''), w)
      | None \<Rightarrow>
          (case Compile R pattern of
             Inl err \<Rightarrow> (Some (ErrWrap err ''invalid regexp''), w)
           | Inr regex \<Rightarrow>
               (case CompleteJobsByPattern_loop Q (MatchString R) regex clock f 0
                       (Queue_JobInfo Q (qstate w)) (called Call_JobInfo w) [] of
                  (w', c) \<Rightarrow> (catcher_Resolve c, w'))))"

section \<open>The abortable worker pool\<close>

text \<open>
  The pool's fields, and beside them what its methods act on: the contexts whose
  \<open>CancelFunc\<close> has been called (a \<open>CancelFunc\<close> is the number of its context),
  the number of the next context \<open>context.WithCancel\<close> makes, the number of
  \<open>go p.worker\<close> statements executed, and the queue with the record of calls.
  \<open>pool_wg\<close> is the counter of the \<open>WaitGroup\<close>. Every method holds the pool's mutex
  for its whole body, so a method is one step on this state.
\<close>

record 'q abortablePool =
  pool_size :: go_int
  pool_started :: bool
  pool_wg :: int
  pool_jobs :: "(string \<times> nat) list"
  pool_cancelled :: "nat list"
  pool_next_ctx :: nat
  pool_spawned :: nat
  pool_queue :: "'q world"

text \<open>
  The caller's context: \<open>None\<close> is never cancelled, \<open>Some k\<close> is cancelled from check
  number \<open>k\<close> of \<open>ctx.Err()\<close> on.
\<close>

type_synonym ctx = "nat option"

definition ctx_Err :: "ctx \<Rightarrow> nat \<Rightarrow> error option" where
  "ctx_Err ctx i = (case ctx of None \<Rightarrow> None | Some k \<Rightarrow> if k \<le> i then Some ErrContext else None)"

definition IsRunning :: "'q abortablePool \<Rightarrow> string \<Rightarrow> bool" where
  "IsRunning p jid = (case map_of (pool_jobs p) jid of None \<Rightarrow> False | Some _ \<Rightarrow> True)"

definition RunningJobs :: "nat \<Rightarrow> 'q abortablePool \<Rightarrow> string list" where
  "RunningJobs seed p = map fst (range_order seed (pool_jobs p))"

definition Abort :: "'q Queue \<Rightarrow> string \<Rightarrow> 'q abortablePool \<Rightarrow> error option \<times> 'q abortablePool" where
  "Abort Q jid p =
     (case map_of (pool_jobs p) jid of
        None \<Rightarrow> (Some (ErrNew (''job '' @ quoted jid @ '' is not defined'')), p)
      | Some cancel \<Rightarrow>
          (let p1 = p\<lparr>pool_cancelled := pool_cancelled p @ [cancel],
                      pool_jobs := map_delete jid (pool_jobs p)\<rparr>;
               w1 = called (Call_Get jid) (pool_queue p1)
           in case Queue_Get Q (qstate w1) jid of
                None \<Rightarrow>
                  (Some (ErrNew (''could not find '' @ quoted jid @ '' in the queue'')),
                   p1\<lparr>pool_queue := w1\<rparr>)
              | Some job \<Rightarrow>
                  (let w2 = called (Call_Complete job) w1;
                       (err, q2) = Queue_Complete Q (qstate w2) job
                   in (errors_Wrap err ''marking job complete'',
                       p1\<lparr>pool_queue := w2\<lparr>qstate := q2\<rparr>\<rparr>))))"

fun AbortAll_loop ::
  "'q Queue \<Rightarrow> ctx \<Rightarrow> nat \<Rightarrow> (string \<times> nat) list \<Rightarrow> 'q abortablePool \<Rightarrow> catcher
     \<Rightarrow> 'q abortablePool \<times> catcher" where
  "AbortAll_loop Q ctx i [] p c = (p, c)"
| "AbortAll_loop Q ctx i ((jid, cancel) # rest) p c =
     (if ctx_Err ctx i \<noteq> None then (p, catcher_Add c (ctx_Err ctx i))
      else
        (let p1 = p\<lparr>pool_cancelled := pool_cancelled p @ [cancel],
                    pool_jobs := map_delete jid (pool_jobs p)\<rparr>;
             w1 = called (Call_Get jid) (pool_queue p1)
         in case Queue_Get Q (qstate w1) jid of
              None \<Rightarrow> AbortAll_loop Q ctx (Suc i) rest (p1\<lparr>pool_queue := w1\<rparr>) c
            | Some job \<Rightarrow>
                (let w2 = called (Call_Complete job) w1;
                     (err, q2) = Queue_Complete Q (qstate w2) job
                 in AbortAll_loop Q ctx (Suc i) rest (p1\<lparr>pool_queue := w2\<lparr>qstate := q2\<rparr>\<rparr>)
                      (catcher_Wrapf c err (''marking job '' @ quoted (Job_ID job) @ '' complete'')))))"

definition AbortAll ::
  "'q Queue \<Rightarrow> ctx \<Rightarrow> nat \<Rightarrow> 'q abortablePool \<Rightarrow> error option \<times> 'q abortablePool" where
  "AbortAll Q ctx seed p =
     (case AbortAll_loop Q ctx 0 (range_order seed (pool_jobs p)) p [] of
        (p', c) \<Rightarrow> (catcher_Resolve c, p'))"

subsection \<open>The worker loop\<close>

text \<open>
  \<open>executeJob\<close> is the job execution harness, outside this file: it is a parameter that
  runs a job against the queue state and either returns or panics.

  One run of \<open>worker\<close> is followed alone: the list of \<open>select_case\<close> says which case
  of the \<open>select\<close> is ready each time round the loop. The variables declared in the
  \<open>var\<close> block at the top of \<open>worker\<close> are \<open>worker_vars\<close>; the deferred function
  reads them. In the case for \<open>timer.C\<close> the statement \<open>job := p.queue.Next(bctx)\<close>
  declares a new variable \<open>job\<close> for that clause, while \<open>ctx, cancel = ...\<close>
  assigns the variables of the \<open>var\<close> block.
\<close>

datatype 'q exec = Exec_Returns 'q | Exec_Panics string 'q

datatype select_case = Bctx_Done | Timer_C

datatype loop_exit = Blocked | Returned | Panicked string

record worker_vars =
  var_err :: "error option"
  var_job :: "Job option"
  var_cancel :: "nat option"

definition addCanceler :: "string \<Rightarrow> nat \<Rightarrow> 'q abortablePool \<Rightarrow> 'q abortablePool" where
  "addCanceler jid cancel p = p\<lparr>pool_jobs := map_set jid cancel (pool_jobs p)\<rparr>"

definition runJob ::
  "(Job \<Rightarrow> 'q \<Rightarrow> 'q exec) \<Rightarrow> Job \<Rightarrow> 'q abortablePool \<Rightarrow> string option \<times> 'q abortablePool" where
  "runJob executeJob job p =
     (let cancel = pool_next_ctx p;
          p1 = addCanceler (Job_ID job) cancel (p\<lparr>pool_next_ctx := Suc (pool_next_ctx p)\<rparr>)
      in case executeJob job (qstate (pool_queue p1)) of
           Exec_Returns q1 \<Rightarrow>
             (None, p1\<lparr>pool_queue := (pool_queue p1)\<lparr>qstate := q1\<rparr>,
                       pool_jobs := map_delete (Job_ID job) (pool_jobs p1)\<rparr>)
         | Exec_Panics v q1 \<Rightarrow>
             (Some v, p1\<lparr>pool_queue := (pool_queue p1)\<lparr>qstate := q1\<rparr>,
                         pool_jobs := map_delete (Job_ID job) (pool_jobs p1)\<rparr>))"

fun worker_loop ::
  "'q Queue \<Rightarrow> (Job \<Rightarrow> 'q \<Rightarrow> 'q exec) \<Rightarrow> select_case list \<Rightarrow> worker_vars \<Rightarrow> 'q abortablePool
     \<Rightarrow> loop_exit \<times> worker_vars \<times> 'q abortablePool" where
  "worker_loop Q executeJob [] vars p = (Blocked, vars, p)"
| "worker_loop Q executeJob (Bctx_Done # rest) vars p = (Returned, vars, p)"
| "worker_loop Q executeJob (Timer_C # rest) vars p =
     (let w1 = called Call_Next (pool_queue p);
          (job, q1) = Queue_Next Q (qstate w1);
          p1 = p\<lparr>pool_queue := w1\<lparr>qstate := q1\<rparr>\<rparr>
      in case job of
           None \<Rightarrow> worker_loop Q executeJob rest vars p1
         | Some j \<Rightarrow>
             (let cancel = pool_next_ctx p1;
                  vars1 = vars\<lparr>var_cancel := Some cancel\<rparr>;
                  p2 = p1\<lparr>pool_next_ctx := Suc (pool_next_ctx p1)\<rparr>
              in case runJob executeJob j p2 of
                   (Some v, p3) \<Rightarrow> (Panicked v, vars1, p3)
                 | (None, p3) \<Rightarrow>
                     worker_loop Q executeJob rest vars1
                       (p3\<lparr>pool_cancelled := pool_cancelled p3 @ [cancel]\<rparr>)))"

definition recovery_HandlePanicWithError :: "string option \<Rightarrow> string \<Rightarrow> error option" where
  "recovery_HandlePanicWithError recovered msg =
     (case recovered of None \<Rightarrow> None | Some v \<Rightarrow> Some (ErrWrap (ErrNew v) msg))"

text \<open>
  The deferred function of \<open>worker\<close>, then the deferred \<open>p.wg.Done()\<close>.
  \<open>pool_spawned\<close> counts the \<open>go p.worker(bctx)\<close> statements executed.
\<close>

definition worker_deferred ::
  "'q Queue \<Rightarrow> string option \<Rightarrow> worker_vars \<Rightarrow> 'q abortablePool \<Rightarrow> 'q abortablePool" where
  "worker_deferred Q recovered vars p =
     (let err = recovery_HandlePanicWithError recovered ''worker process encountered error'';
          p1 = (case err of
                  None \<Rightarrow> p
                | Some e \<Rightarrow>
                    (let p' = (case var_job vars of
                                 None \<Rightarrow> p
                               | Some job \<Rightarrow>
                                   (let job' = job\<lparr>Job_Errors := Job_Errors job @ [e]\<rparr>;
                                        w1 = called (Call_Complete job') (pool_queue p);
                                        (cerr, q1) = Queue_Complete Q (qstate w1) job'
                                    in p\<lparr>pool_queue := w1\<lparr>qstate := q1\<rparr>\<rparr>))
                     in p'\<lparr>pool_spawned := Suc (pool_spawned p')\<rparr>));
          p2 = (case var_cancel vars of
                  None \<Rightarrow> p1
                | Some cancel \<Rightarrow> p1\<lparr>pool_cancelled := pool_cancelled p1 @ [cancel]\<rparr>)
      in p2\<lparr>pool_wg := pool_wg p2 - 1\<rparr>)"

definition worker ::
  "'q Queue \<Rightarrow> (Job \<Rightarrow> 'q \<Rightarrow> 'q exec) \<Rightarrow> select_case list \<Rightarrow> 'q abortablePool \<Rightarrow> 'q abortablePool" where
  "worker Q executeJob events p =
     (case worker_loop Q executeJob events
             \<lparr>var_err = None, var_job = None, var_cancel = None\<rparr>
             (p\<lparr>pool_wg := pool_wg p + 1\<rparr>) of
        (Blocked, vars, p1) \<Rightarrow> p1
      | (Returned, vars, p1) \<Rightarrow> worker_deferred Q None vars p1
      | (Panicked v, vars, p1) \<Rightarrow> worker_deferred Q (Some v) vars p1)"

section \<open>Conditions used in the statements\<close>

text \<open>
  The condition under which \<open>RecentTiming\<close> takes a sample for entry number \<open>i\<close>:
  the tests of the three cases of its \<open>switch\<close>.
\<close>

definition runtime_included :: "clock \<Rightarrow> duration \<Rightarrow> RuntimeFilter \<Rightarrow> nat \<Rightarrow> JobInfo \<Rightarrow> bool" where
  "runtime_included clock window f i info =
     (case f of
        Running \<Rightarrow> Status_InProgress (Info_Status info)
      | Latency \<Rightarrow> \<not> Status_Completed (Info_Status info)
                    \<and> \<not> window <s time_Since (clock i 0) (Created (Info_Time info))
      | Duration \<Rightarrow> Status_Completed (Info_Status info)
                    \<and> \<not> window <s time_Since (clock i 0) (End (Info_Time info))
      | OtherRuntimeFilter _ \<Rightarrow> False)"

text \<open>
  The entries of an enumeration that \<open>JobStatus\<close> counts for a job type under a filter:
  the positions whose entry has that type and passes \<open>matchesStatusFilter\<close> at the clock
  reading of its turn.
\<close>

definition counted_entries ::
  "duration \<Rightarrow> clock \<Rightarrow> StatusFilter \<Rightarrow> JobInfo list \<Rightarrow> string \<Rightarrow> nat list" where
  "counted_entries lt clock f infos t =
     filter (\<lambda>i. Name (Info_Type (infos ! i)) = t
                  \<and> matchesStatusFilter lt (clock i 0) (infos ! i) f)
       [0..<length infos]"

text \<open>
  A row of the error reports, as the last loop makes it from an entry of the collector,
  and a row with its list of messages emptied.
\<close>

definition error_row :: "string \<times> JobErrorsForType \<Rightarrow> JobErrorsForType" where
  "error_row kv =
     (snd kv)\<lparr>Errors_ID := fst kv,
              Errors_Average := float64 (go_quot (Errors_Total (snd kv)) (Errors_Count (snd kv)))\<rparr>"

definition without_errors :: "JobErrorsForType \<Rightarrow> JobErrorsForType" where
  "without_errors v = v\<lparr>Errors_Errors := []\<rparr>"

text \<open>
  The counts of a collector lie between one and a bound \<open>b\<close>, the number of entries
  handled so far.
\<close>

definition counts_within :: "nat \<Rightarrow> (string \<times> JobErrorsForType) list \<Rightarrow> bool" where
  "counts_within b coll =
     list_all (\<lambda>kv. \<exists>n. 1 \<le> n \<and> n \<le> b \<and> Errors_Count (snd kv) = of_nat n) coll"

text \<open>
  What \<open>AbortAll\<close> is to aggregate, read off the answers of the queue alone. The entries
  are taken in the order of the iteration, from check number \<open>i\<close> of the context. At an
  entry where the context is found cancelled its error is the last one recorded. At any
  other entry the queue is asked for the job: a job that is not found adds nothing, a found
  job is marked complete, and a failure of that \<open>Complete\<close> is recorded under the job's ID.
\<close>

fun abort_errors :: "'q Queue \<Rightarrow> ctx \<Rightarrow> nat \<Rightarrow> (string \<times> nat) list \<Rightarrow> 'q \<Rightarrow> error list" where
  "abort_errors Q ctx i [] q = []"
| "abort_errors Q ctx i ((jid, cancel) # rest) q =
     (case ctx_Err ctx i of
        Some e \<Rightarrow> [e]
      | None \<Rightarrow>
          (case Queue_Get Q q jid of
             None \<Rightarrow> abort_errors Q ctx (Suc i) rest q
           | Some job \<Rightarrow>
               (case Queue_Complete Q q job of
                  (None, q') \<Rightarrow> abort_errors Q ctx (Suc i) rest q'
                | (Some e, q') \<Rightarrow>
                    ErrWrap e (''marking job '' @ quoted (Job_ID job) @ '' complete'')
                      # abort_errors Q ctx (Suc i) rest q')))"

text \<open>
  The entries the iteration reaches before it stops: all of them under a context that
  is never cancelled, and those before check number \<open>k\<close> under a context cancelled from
  that check on.
\<close>

definition visited :: "ctx \<Rightarrow> nat \<Rightarrow> (string \<times> nat) list \<Rightarrow> (string \<times> nat) list" where
  "visited ctx i entries = (case ctx of None \<Rightarrow> entries | Some k \<Rightarrow> take (k - i) entries)"

text \<open>
  The status-filter predicate, as the table of the spec gives it: pending is neither in
  progress nor completed; in progress; stale is in progress with the time since the last
  modification above the lock timeout; completed; retrying is completed and in need of a
  retry; all matches always. A value outside the six matches nothing.
\<close>

fun status_predicate :: "StatusFilter \<Rightarrow> duration \<Rightarrow> time \<Rightarrow> JobInfo \<Rightarrow> bool" where
  "status_predicate Pending lt now info =
     (\<not> Status_InProgress (Info_Status info) \<and> \<not> Status_Completed (Info_Status info))"
| "status_predicate InProgress lt now info = Status_InProgress (Info_Status info)"
| "status_predicate Stale lt now info =
     (Status_InProgress (Info_Status info)
      \<and> lt <s time_Since now (ModificationTime (Info_Status info)))"
| "status_predicate Completed lt now info = Status_Completed (Info_Status info)"
| "status_predicate Retrying lt now info =
     (Status_Completed (Info_Status info) \<and> NeedsRetry (Info_Retry info))"
| "status_predicate All lt now info = True"
| "status_predicate (OtherStatusFilter s) lt now info = False"

text \<open>
  What \<open>CompleteJobsByPattern\<close> is to do, in the spec's words and in terms of the
  queue's own methods. The entries whose logical ID matches the pattern and whose info
  satisfies the status-filter predicate are selected, \<open>i\<close> being the number of the first
  entry.
\<close>

definition selected_by_pattern ::
  "('r \<Rightarrow> string \<Rightarrow> bool) \<Rightarrow> 'r \<Rightarrow> duration \<Rightarrow> clock \<Rightarrow> StatusFilter \<Rightarrow> nat \<Rightarrow> JobInfo list
     \<Rightarrow> JobInfo list" where
  "selected_by_pattern matchString regex lt clock f i infos =
     map snd
       (filter (\<lambda>(k, info). matchString regex (Info_ID info)
                               \<and> status_predicate f lt (clock k 0) info)
          (enumerate i infos))"

text \<open>
  Resolution of a job from its info: a retryable job on a queue with the retry extension
  is fetched as the attempt the info names; any other job is fetched by its logical ID
  and is an error when absent. \<open>resolution_call\<close> is the call this makes.
\<close>

definition resolution_call :: "'q Queue \<Rightarrow> JobInfo \<Rightarrow> qcall" where
  "resolution_call Q info =
     (if Retryable (Info_Retry info) \<and> Queue_Retryable Q \<noteq> None
      then Call_GetAttempt (Info_ID info) (CurrentAttempt (Info_Retry info))
      else Call_Get (Info_ID info))"

definition resolve_for_mutation :: "'q Queue \<Rightarrow> 'q \<Rightarrow> JobInfo \<Rightarrow> error + Job" where
  "resolve_for_mutation Q q info =
     (case Queue_Retryable Q of
        Some rq \<Rightarrow>
          if Retryable (Info_Retry info)
          then GetAttempt rq q (Info_ID info) (CurrentAttempt (Info_Retry info))
          else (case Queue_Get Q q (Info_ID info) of
                  None \<Rightarrow> Inl (ErrNew ''could not find job'')
                | Some j \<Rightarrow> Inr j)
      | None \<Rightarrow>
          (case Queue_Get Q q (Info_ID info) of
             None \<Rightarrow> Inl (ErrNew ''could not find job'')
           | Some j \<Rightarrow> Inr j))"

text \<open>
  Completion of a job: it is marked complete on the queue and then, if that succeeded and
  the queue has the retry extension, its retry record is marked complete. The result is
  the error if any, the new queue state and the calls made.
\<close>

definition completion :: "'q Queue \<Rightarrow> 'q \<Rightarrow> Job \<Rightarrow> error option \<times> 'q \<times> qcall list" where
  "completion Q q j =
     (case Queue_Complete Q q j of
        (Some e, q1) \<Rightarrow> (Some (ErrWrap e ''completing job''), q1, [Call_Complete j])
      | (None, q1) \<Rightarrow>
          (case Queue_Retryable Q of
             None \<Rightarrow> (None, q1, [Call_Complete j])
           | Some rq \<Rightarrow>
               (case CompleteRetrying rq q1 j of
                  (None, q2) \<Rightarrow> (None, q2, [Call_Complete j, Call_CompleteRetrying j])
                | (Some e, q2) \<Rightarrow>
                    (Some (ErrWrap e ''marking retryable job as complete''), q2,
                     [Call_Complete j, Call_CompleteRetrying j]))))"

text \<open>
  The selected entries are taken in the order of the enumeration: each is resolved and,
  when resolved, completed; a failure of either is recorded under the ID and the next
  entry is taken. The result is the last queue state, the calls made and the failures.
\<close>

fun complete_selected ::
  "'q Queue \<Rightarrow> JobInfo list \<Rightarrow> 'q \<Rightarrow> 'q \<times> qcall list \<times> error list" where
  "complete_selected Q [] q = (q, [], [])"
| "complete_selected Q (info # rest) q =
     (case resolve_for_mutation Q q info of
        Inl err \<Rightarrow>
          (case complete_selected Q rest q of
             (q', cs, es) \<Rightarrow>
               (q', resolution_call Q info # cs,
                ErrWrap err (''could not get job '' @ quoted (Info_ID info) @ '' from info'') # es))
      | Inr j \<Rightarrow>
          (case completion Q q j of
             (None, q1, cs1) \<Rightarrow>
               (case complete_selected Q rest q1 of
                  (q', cs, es) \<Rightarrow> (q', resolution_call Q info # cs1 @ cs, es))
           | (Some e, q1, cs1) \<Rightarrow>
               (case complete_selected Q rest q1 of
                  (q', cs, es) \<Rightarrow>
                    (q', resolution_call Q info # cs1 @ cs,
                     ErrWrap e (''marking job '' @ quoted (Job_ID j) @ '' complete'') # es))))"

text \<open>
  Every resolution and every completion of the selected entries succeeds, along the run
  from a given queue state.
\<close>

fun all_succeed :: "'q Queue \<Rightarrow> JobInfo list \<Rightarrow> 'q \<Rightarrow> bool" where
  "all_succeed Q [] q = True"
| "all_succeed Q (info # rest) q =
     (case resolve_for_mutation Q q info of
        Inl err \<Rightarrow> False
      | Inr j \<Rightarrow>
          (case completion Q q j of
             (None, q1, cs1) \<Rightarrow> all_succeed Q rest q1
           | (Some e, q1, cs1) \<Rightarrow> False))"

text \<open>
  Of a record of calls, the resolutions (\<open>Get\<close> and \<open>GetAttempt\<close>) and the jobs handed to
  \<open>Complete\<close>.
\<close>

fun resolutions :: "qcall list \<Rightarrow> qcall list" where
  "resolutions [] = []"
| "resolutions (Call_Get jid # cs) = Call_Get jid # resolutions cs"
| "resolutions (Call_GetAttempt jid n # cs) = Call_GetAttempt jid n # resolutions cs"
| "resolutions (c # cs) = resolutions cs"

fun completed_jobs :: "qcall list \<Rightarrow> Job list" where
  "completed_jobs [] = []"
| "completed_jobs (Call_Complete j # cs) = j # completed_jobs cs"
| "completed_jobs (c # cs) = completed_jobs cs"

section \<open>A queue and a pattern matcher for the examples\<close>

text \<open>
  A small queue to evaluate the functions on: its state is the list of job infos, \<open>Get\<close>
  finds a job by its ID, \<open>Complete\<close> marks the entries of that ID completed and never
  fails, \<open>Next\<close> hands out the first entry that is neither in progress nor completed and
  marks it in progress. It has no retry extension.
\<close>

definition mark_complete :: "string \<Rightarrow> JobInfo \<Rightarrow> JobInfo" where
  "mark_complete jid info =
     (if Info_ID info = jid
      then info\<lparr>Info_Status := (Info_Status info)\<lparr>Status_InProgress := False, Status_Completed := True\<rparr>\<rparr>
      else info)"

fun list_next :: "JobInfo list \<Rightarrow> Job option \<times> JobInfo list" where
  "list_next [] = (None, [])"
| "list_next (info # rest) =
     (if \<not> Status_InProgress (Info_Status info) \<and> \<not> Status_Completed (Info_Status info)
      then (Some \<lparr>Job_ID = Info_ID info, Job_Errors = []\<rparr>,
            info\<lparr>Info_Status := (Info_Status info)\<lparr>Status_InProgress := True\<rparr>\<rparr> # rest)
      else (case list_next rest of (j, rest') \<Rightarrow> (j, info # rest')))"

definition list_queue :: "duration \<Rightarrow> (JobInfo list) Queue" where
  "list_queue lockTimeout =
     \<lparr>Queue_ID = ''example'',
      Queue_JobInfo = (\<lambda>q. q),
      Queue_LockTimeout = lockTimeout,
      Queue_Get = (\<lambda>q jid. if jid \<in> set (map Info_ID q)
                             then Some \<lparr>Job_ID = jid, Job_Errors = []\<rparr> else None),
      Queue_Complete = (\<lambda>q j. (None, map (mark_complete (Job_ID j)) q)),
      Queue_Next = list_next,
      Queue_Retryable = None\<rparr>"

definition mk_info :: "string \<Rightarrow> string \<Rightarrow> bool \<Rightarrow> bool \<Rightarrow> go_int \<Rightarrow> string list \<Rightarrow> time \<Rightarrow> JobInfo" where
  "mk_info jid ty inProgress completed errorCount errs t =
     \<lparr>Info_ID = jid,
      Info_Type = \<lparr>Name = ty\<rparr>,
      Info_Status = \<lparr>Status_InProgress = inProgress, Status_Completed = completed,
                     ErrorCount = errorCount, Status_Errors = errs, ModificationTime = t\<rparr>,
      Info_Time = \<lparr>Created = t, Start = t, End = t\<rparr>,
      Info_Retry = \<lparr>Retryable = False, NeedsRetry = False, CurrentAttempt = 0\<rparr>\<rparr>"

text \<open>
  The same queue with a \<open>Complete\<close> that fails for the job IDs of a given list, and the
  same queue with a retry extension that finds every attempt of the jobs it holds.
\<close>

definition failing_queue :: "string list \<Rightarrow> (JobInfo list) Queue" where
  "failing_queue bad =
     (list_queue 0)
       \<lparr>Queue_Complete :=
          (\<lambda>q j. if Job_ID j \<in> set bad then (Some (ErrNew ''boom''), q)
                   else (None, map (mark_complete (Job_ID j)) q))\<rparr>"

definition retry_queue :: "(JobInfo list) Queue" where
  "retry_queue =
     (list_queue 0)
       \<lparr>Queue_Retryable :=
          Some \<lparr>GetAttempt =
                   (\<lambda>q jid n. if jid \<in> set (map Info_ID q)
                                then Inr \<lparr>Job_ID = jid, Job_Errors = []\<rparr>
                                else Inl (ErrNew ''no such attempt'')),
                 CompleteRetrying = (\<lambda>q j. (None, q))\<rparr>\<rparr>"

text \<open>
  A matcher for the two patterns of the examples: a pattern \<open>^lit\<close> with \<open>lit\<close>
  made of lower-case letters, digits and hyphens matches the strings that start with \<open>lit\<close>, and the pattern \<open>[\<close> is refused,
  as \<open>regexp.Compile\<close> does for both. Any other pattern is refused as well.
\<close>

definition literal_char :: "char \<Rightarrow> bool" where
  "literal_char c = (c \<in> set ''abcdefghijklmnopqrstuvwxyz0123456789-'')"

definition prefix_regexp :: "string regexp" where
  "prefix_regexp =
     \<lparr>Compile = (\<lambda>pattern.
        case pattern of
          [] \<Rightarrow> Inl (ErrNew ''pattern outside the examples'')
        | c # lit \<Rightarrow>
            if c = CHR ''^'' \<and> list_all literal_char lit then Inr lit
            else if pattern = ''['' then Inl (ErrNew ''error parsing regexp: missing closing ]'')
            else Inl (ErrNew ''pattern outside the examples'')),
      MatchString = (\<lambda>lit s. take (length lit) s = lit)\<rparr>"

text \<open>A pool for the examples, with a given running-job table over a given queue state.\<close>

definition example_pool :: "(string \<times> nat) list \<Rightarrow> JobInfo list \<Rightarrow> (JobInfo list) abortablePool" where
  "example_pool table q =
     \<lparr>pool_size = 2, pool_started = True, pool_wg = 2, pool_jobs = table, pool_cancelled = [],
      pool_next_ctx = 10, pool_spawned = 2, pool_queue = \<lparr>qstate = q, calls = []\<rparr>\<rparr>"

text \<open>Two failed jobs of one type, with three and four errors, one message in common.\<close>

definition example_failed :: "JobInfo list" where
  "example_failed =
     [mk_info ''a'' ''build'' False True 3 [''boom'', ''x''] 0,
      mk_info ''b'' ''build'' False True 4 [''boom''] 0]"

text \<open>The three jobs of the spec's scenario, pending, and a world holding them.\<close>

definition example_builds :: "JobInfo list" where
  "example_builds =
     [mk_info ''build-1'' ''build'' False False 0 [] 0,
      mk_info ''build-2'' ''build'' False False 0 [] 0,
      mk_info ''test-1'' ''test'' False False 0 [] 0]"

definition example_world :: "JobInfo list world" where
  "example_world = \<lparr>qstate = example_builds, calls = []\<rparr>"

text \<open>
  A world on the queue with the retry extension: a pending retryable job at its attempt
  number two, and a completed job.
\<close>

definition example_retryable :: JobInfo where
  "example_retryable =
     (mk_info ''build-1'' ''build'' False False 0 [] 0)
       \<lparr>Info_Retry := \<lparr>Retryable = True, NeedsRetry = False, CurrentAttempt = 2\<rparr>\<rparr>"

definition example_retry_world :: "JobInfo list world" where
  "example_retry_world =
     \<lparr>qstate = [example_retryable, mk_info ''build-2'' ''build'' False True 0 [] 0], calls = []\<rparr>"

text \<open>
  A harness whose job execution panics, and a pool of size two over a queue with one
  pending job: one worker is in its loop, the second starts now.
\<close>

definition panicking :: "Job \<Rightarrow> JobInfo list \<Rightarrow> (JobInfo list) exec" where
  "panicking job q = Exec_Panics ''boom'' q"

definition example_started :: "(JobInfo list) abortablePool" where
  "example_started =
     (example_pool [] [mk_info ''j1'' ''build'' False False 0 [] 0])\<lparr>pool_wg := 1\<rparr>"

section \<open>The order of a range over a map\<close>

lemma mset_range_order: "mset (range_order n xs) = mset xs"
proof (induction n xs rule: range_order.induct)
  case (1 n)
  then show ?case by simp
next
  case (2 n x xs)
  define ys where "ys = x # xs"
  define i where "i = n mod Suc (length xs)"
  have i: "i < length ys"
    by (simp add: i_def ys_def)
  have IH: "mset (range_order (n div Suc (length xs)) (take i ys @ drop (Suc i) ys))
              = mset (take i ys @ drop (Suc i) ys)"
    using "2.IH" [of i] by (simp add: i_def ys_def)
  have "mset ys = mset (take i ys @ ys ! i # drop (Suc i) ys)"
    using id_take_nth_drop [OF i] by simp
  then have "mset ys = add_mset (ys ! i) (mset (take i ys @ drop (Suc i) ys))"
    by simp
  moreover have "range_order n ys
      = ys ! i # range_order (n div Suc (length xs)) (take i ys @ drop (Suc i) ys)"
    by (simp add: ys_def i_def Let_def)
  ultimately show ?case
    using IH by (simp add: ys_def)
qed

lemma set_range_order: "set (range_order n xs) = set xs"
  using mset_range_order [of n xs] by (metis set_mset_mset)

lemma length_range_order: "length (range_order n xs) = length xs"
  using mset_range_order [of n xs] by (metis size_mset)

lemma distinct_range_order: "distinct (range_order n xs) = distinct xs"
  using mset_range_order [of n xs] by (metis distinct_count_atmost_1 mset_eq_imp_distinct_iff)

lemma distinct_map_range_order: "distinct (map f (range_order n xs)) = distinct (map f xs)"
proof -
  have "mset (map f (range_order n xs)) = mset (map f xs)"
    using mset_range_order [of n xs] by simp
  then show ?thesis
    by (rule mset_eq_imp_distinct_iff)
qed

lemma map_get_map_set: "map_get z (map_set k v m) k' = (if k' = k then v else map_get z m k')"
  by (simp add: map_get_def map_set_def update_conv')

lemma map_of_map_set: "map_of (map_set k v m) k' = (if k' = k then Some v else map_of m k')"
  by (simp add: map_set_def update_conv')

lemma distinct_map_set: "distinct (map fst m) \<Longrightarrow> distinct (map fst (map_set k v m))"
  by (simp add: map_set_def distinct_update)

section \<open>Theorems about the queue manager\<close>

subsection \<open>JobStatus and the stale jobs\<close>

lemma counted_entries_Cons:
  "length (counted_entries lt (\<lambda>k. clock (i + k)) f (info # rest) t)
     = (if Name (Info_Type info) = t \<and> matchesStatusFilter lt (clock i 0) info f then 1 else 0)
       + length (counted_entries lt (\<lambda>k. clock (Suc i + k)) f rest t)"
proof -
  have "[0..<length (info # rest)] = 0 # map Suc [0..<length rest]"
    by (simp add: upt_conv_Cons map_Suc_upt del: upt_Suc)
  then show ?thesis
    by (simp add: counted_entries_def filter_map comp_def del: upt_Suc)
qed

lemma JobStatus_loop_map_of:
  "map_of (JobStatus_loop lt clock f i infos cs) t =
     (if length (counted_entries lt (\<lambda>k. clock (i + k)) f infos t) = 0 then map_of cs t
      else Some (map_get 0 cs t
                  + of_nat (length (counted_entries lt (\<lambda>k. clock (i + k)) f infos t))))"
proof (induction infos arbitrary: i cs)
  case Nil
  then show ?case by (simp add: counted_entries_def)
next
  case (Cons info rest)
  show ?case
    by (simp add: Cons.IH counted_entries_Cons map_get_map_set map_of_map_set)
qed

lemma JobStatus_loop_distinct:
  "distinct (map fst cs) \<Longrightarrow> distinct (map fst (JobStatus_loop lt clock f i infos cs))"
  by (induction infos arbitrary: i cs) (simp_all add: distinct_map_set)

lemma JobStatus_row:
  assumes "StatusFilter_Validate f = None"
    and "counted_entries (Queue_LockTimeout Q) clock f (Queue_JobInfo Q q) t \<noteq> []"
  shows "\<exists>rep. JobStatus Q q clock seed f = Inr rep \<and>
           \<lparr>Counters_ID = t,
            Counters_Count =
              of_nat (length (counted_entries (Queue_LockTimeout Q) clock f (Queue_JobInfo Q q) t))\<rparr>
             \<in> set (StatusReport_Stats rep)"
proof -
  define cs where "cs = JobStatus_loop (Queue_LockTimeout Q) clock f 0 (Queue_JobInfo Q q) []"
  define n where "n = length (counted_entries (Queue_LockTimeout Q) clock f (Queue_JobInfo Q q) t)"
  have "map_of cs t = Some (of_nat n)"
    using JobStatus_loop_map_of [of "Queue_LockTimeout Q" clock f 0 "Queue_JobInfo Q q" "[]" t] assms(2)
    by (simp add: cs_def n_def map_get_def)
  then have "(t, of_nat n) \<in> set (range_order seed cs)"
    by (simp add: set_range_order map_of_SomeD)
  then have "\<lparr>Counters_ID = t, Counters_Count = of_nat n\<rparr>
               \<in> set (map (\<lambda>(jt, num). \<lparr>Counters_ID = jt, Counters_Count = num\<rparr>)
                         (range_order seed cs))"
    by force
  then show ?thesis
    using assms(1) by (simp add: JobStatus_def cs_def n_def)
qed

text \<open>
  Claim C1, as the code has it. Every entry that is in progress and whose last
  modification is older than the queue's lock timeout passes \<open>matchesStatusFilter\<close> for
  \<open>Stale\<close> and for \<open>InProgress\<close> alike: under either filter it is among the entries
  that \<open>JobStatus\<close> counts for its job type, and the report has the row of that type
  with the number of those entries.
\<close>

theorem JobStatus_stale_counted_under_both:
  assumes "i < length (Queue_JobInfo Q q)"
    and "Status_InProgress (Info_Status (Queue_JobInfo Q q ! i))"
    and "Queue_LockTimeout Q
           <s time_Since (clock i 0) (ModificationTime (Info_Status (Queue_JobInfo Q q ! i)))"
    and "f = Stale \<or> f = InProgress"
  shows "matchesStatusFilter (Queue_LockTimeout Q) (clock i 0) (Queue_JobInfo Q q ! i) f \<and>
         i \<in> set (counted_entries (Queue_LockTimeout Q) clock f (Queue_JobInfo Q q)
                    (Name (Info_Type (Queue_JobInfo Q q ! i)))) \<and>
         (\<exists>rep. JobStatus Q q clock seed f = Inr rep \<and>
            \<lparr>Counters_ID = Name (Info_Type (Queue_JobInfo Q q ! i)),
             Counters_Count =
               of_nat (length (counted_entries (Queue_LockTimeout Q) clock f (Queue_JobInfo Q q)
                                 (Name (Info_Type (Queue_JobInfo Q q ! i)))))\<rparr>
              \<in> set (StatusReport_Stats rep))"
proof -
  have m: "matchesStatusFilter (Queue_LockTimeout Q) (clock i 0) (Queue_JobInfo Q q ! i) f"
    using assms(2,3,4) by (auto simp: matchesStatusFilter_def)
  then have c: "i \<in> set (counted_entries (Queue_LockTimeout Q) clock f (Queue_JobInfo Q q)
                    (Name (Info_Type (Queue_JobInfo Q q ! i))))"
    using assms(1) by (simp add: counted_entries_def)
  then have ne: "counted_entries (Queue_LockTimeout Q) clock f (Queue_JobInfo Q q)
                    (Name (Info_Type (Queue_JobInfo Q q ! i))) \<noteq> []"
    by auto
  have v: "StatusFilter_Validate f = None"
    using assms(4) by (auto simp: StatusFilter_Validate_def)
  show ?thesis
    using m c JobStatus_row [OF v ne] by blast
qed

theorem JobStatus_stale_counted_under_both_witness:
  "Status_InProgress (Info_Status (mk_info ''a'' ''build'' True False 0 [] 0)) \<and>
   Second <s time_Since 5000000000
               (ModificationTime (Info_Status (mk_info ''a'' ''build'' True False 0 [] 0))) \<and>
   matchesStatusFilter Second 5000000000 (mk_info ''a'' ''build'' True False 0 [] 0) Stale \<and>
   (\<exists>rep. JobStatus (list_queue Second) [mk_info ''a'' ''build'' True False 0 [] 0]
             (\<lambda>i k. 5000000000) 7 Stale = Inr rep \<and>
          \<lparr>Counters_ID = ''build'', Counters_Count = 1\<rparr> \<in> set (StatusReport_Stats rep))"
proof -
  let ?info = "mk_info ''a'' ''build'' True False 0 [] 0"
  let ?Q = "list_queue Second"
  have q: "Queue_JobInfo ?Q [?info] = [?info]" "Queue_LockTimeout ?Q = Second"
    by (simp_all add: list_queue_def)
  have a: "0 < length (Queue_JobInfo ?Q [?info])"
    by (simp add: q)
  have b: "Status_InProgress (Info_Status (Queue_JobInfo ?Q [?info] ! 0))"
    by (simp add: list_queue_def mk_info_def)
  have c: "Queue_LockTimeout ?Q
             <s time_Since ((\<lambda>i k. 5000000000) 0 0)
                  (ModificationTime (Info_Status (Queue_JobInfo ?Q [?info] ! 0)))"
    by (simp add: list_queue_def mk_info_def time_Since_def time_Sub_def Second_def)
  have d: "Stale = Stale \<or> Stale = InProgress"
    by simp
  have n: "Name (Info_Type ?info) = ''build''"
    by (simp add: mk_info_def)
  have m: "matchesStatusFilter Second 5000000000 ?info Stale"
    using JobStatus_stale_counted_under_both [OF a b c d, of 7] by (simp add: q)
  then have e: "counted_entries Second (\<lambda>i k. 5000000000) Stale [?info] ''build'' = [0]"
    by (simp add: counted_entries_def n)
  show ?thesis
    using JobStatus_stale_counted_under_both [OF a b c d, of 7] b c
    by (simp add: q n e)
qed

text \<open>
  The claim as the spec words it fails on a queue with one in-progress job last modified
  five seconds ago, under a lock timeout of one second: \<open>JobStatus\<close> with the filter
  \<open>InProgress\<close> counts it.
\<close>

theorem JobStatus_stale_counterexample:
  "Status_InProgress (Info_Status (mk_info ''a'' ''build'' True False 0 [] 0)) \<and>
   Second <s time_Since 5000000000 (ModificationTime (Info_Status (mk_info ''a'' ''build'' True False 0 [] 0))) \<and>
   matchesStatusFilter Second 5000000000 (mk_info ''a'' ''build'' True False 0 [] 0) InProgress \<and>
   JobStatus (list_queue Second) [mk_info ''a'' ''build'' True False 0 [] 0]
       (\<lambda>i k. 5000000000) 0 InProgress
     = Inr \<lparr>StatusReport_Filter = InProgress,
            StatusReport_Stats = [\<lparr>Counters_ID = ''build'', Counters_Count = 1\<rparr>]\<rparr>"
  by (simp add: JobStatus_def StatusFilter_Validate_def list_queue_def mk_info_def
        matchesStatusFilter_def map_set_def map_get_def time_Since_def time_Sub_def Second_def)


subsection \<open>The window of the timing and error reports\<close>

lemma Second_le_Second: "Second \<le>s Second"
  by simp

text \<open>
  Claim C9. For every window of at most one second and every filter value, valid or
  not, \<open>RecentTiming\<close>, \<open>RecentErrors\<close> and \<open>RecentJobErrors\<close> each return an error
  and a nil report.
\<close>

theorem window_at_most_one_second_fails:
  "window \<le>s Second \<Longrightarrow>
     (\<exists>e. RecentTiming Q q clock seed window f = Returns (Inl e)) \<and>
     (\<exists>e. RecentErrors Q q clock seedE seed window g = Returns (Inl e)) \<and>
     (\<exists>e. RecentJobErrors Q q clock seedE seed jobType window g = Returns (Inl e))"
  by (simp add: RecentTiming_def RecentErrors_def RecentJobErrors_def split: option.splits)

theorem window_at_most_one_second_fails_witness:
  "(Second \<le>s Second) \<and>
     (\<exists>e. RecentTiming (list_queue 0) [] (\<lambda>i k. 0) 0 Second Running = Returns (Inl e)) \<and>
     (\<exists>e. RecentErrors (list_queue 0) [] (\<lambda>i k. 0) (\<lambda>k. 0) 0 Second (OtherErrorFilter ''foo'')
            = Returns (Inl e)) \<and>
     (\<exists>e. RecentJobErrors (list_queue 0) [] (\<lambda>i k. 0) (\<lambda>k. 0) 0 ''build'' Second
            (OtherErrorFilter ''foo'') = Returns (Inl e))"
  using window_at_most_one_second_fails
          [OF Second_le_Second, of "list_queue 0" "[]" "\<lambda>i k. 0" 0 Running "\<lambda>k. 0"
             "OtherErrorFilter ''foo''" "''build''"]
  by simp

subsection \<open>RecentTiming when nothing matches\<close>

lemma RecentTiming_loop_no_match:
  "RuntimeFilter_Validate f = None \<Longrightarrow>
   \<forall>k < length infos. \<not> runtime_included clock window f (i + k) (infos ! k) \<Longrightarrow>
   RecentTiming_loop clock window f i infos counters = Inr counters"
proof (induction infos arbitrary: i)
  case Nil
  then show ?case by simp
next
  case (Cons info rest)
  have here: "\<not> runtime_included clock window f i info"
    using Cons.prems(2) by fastforce
  have "\<forall>k < length rest. \<not> runtime_included clock window f (Suc i + k) (rest ! k)"
    using Cons.prems(2) by fastforce
  then have IH: "RecentTiming_loop clock window f (Suc i) rest counters = Inr counters"
    using Cons.IH Cons.prems(1) by blast
  show ?case
    using here IH Cons.prems(1)
    by (cases f) (auto simp: runtime_included_def RuntimeFilter_Validate_def)
qed

text \<open>
  Claim C2, as the code has it. For every valid runtime filter and every window greater
  than one second, if no entry of the enumeration matches the filter's inclusion
  condition, \<open>RecentTiming\<close> returns no error: it returns a report with the filter, the
  window and an empty list of rows.
\<close>

theorem RecentTiming_no_match_empty_report:
  assumes "RuntimeFilter_Validate f = None"
    and "Second <s window"
    and "\<forall>k < length (Queue_JobInfo Q q).
           \<not> runtime_included clock window f k (Queue_JobInfo Q q ! k)"
  shows "RecentTiming Q q clock seed window f =
           Returns (Inr \<lparr>RuntimeReport_Filter = f, RuntimeReport_Period = window,
                          RuntimeReport_Stats = []\<rparr>)"
proof -
  have "RecentTiming_loop clock window f 0 (Queue_JobInfo Q q) [] = Inr []"
    using RecentTiming_loop_no_match [of f "Queue_JobInfo Q q" clock window 0 "[]"] assms
    by simp
  moreover have "\<not> window \<le>s Second"
    using assms(2) by (simp add: word_sle_eq word_sless_alt)
  ultimately show ?thesis
    using assms(1) by (simp add: RecentTiming_def)
qed

text \<open>
  The claim as the spec words it fails on a queue whose only job is completed, asked for
  the running jobs over a window of two seconds: no entry matches, and a report comes back.
\<close>

theorem RecentTiming_no_match_counterexample:
  "RuntimeFilter_Validate Running = None \<and> Second <s 2 * Second \<and>
   \<not> runtime_included (\<lambda>i k. 0) (2 * Second) Running 0 (mk_info ''a'' ''build'' False True 0 [] 0) \<and>
   RecentTiming (list_queue 0) [mk_info ''a'' ''build'' False True 0 [] 0] (\<lambda>i k. 0) 0
       (2 * Second) Running
     = Returns (Inr \<lparr>RuntimeReport_Filter = Running, RuntimeReport_Period = 2 * Second,
                     RuntimeReport_Stats = []\<rparr>)"
  by (simp add: RecentTiming_def RuntimeFilter_Validate_def Second_def list_queue_def
        mk_info_def runtime_included_def)

theorem RecentTiming_no_match_empty_report_witness:
  "RuntimeFilter_Validate Duration = None \<and> Second <s 2 * Second \<and>
   Queue_JobInfo (list_queue 0) [mk_info ''a'' ''build'' True False 0 [] 0]
     = [mk_info ''a'' ''build'' True False 0 [] 0] \<and>
   \<not> runtime_included (\<lambda>i k. 5) (2 * Second) Duration 0
        (mk_info ''a'' ''build'' True False 0 [] 0) \<and>
   RecentTiming (list_queue 0) [mk_info ''a'' ''build'' True False 0 [] 0] (\<lambda>i k. 5) 3
       (2 * Second) Duration
     = Returns (Inr \<lparr>RuntimeReport_Filter = Duration, RuntimeReport_Period = 2 * Second,
                     RuntimeReport_Stats = []\<rparr>)"
proof -
  have a: "RuntimeFilter_Validate Duration = None"
    by (simp add: RuntimeFilter_Validate_def)
  have b: "Second <s 2 * Second"
    by (simp add: Second_def)
  have c: "\<forall>k < length (Queue_JobInfo (list_queue 0) [mk_info ''a'' ''build'' True False 0 [] 0]).
      \<not> runtime_included (\<lambda>i k. 5) (2 * Second) Duration k
          (Queue_JobInfo (list_queue 0) [mk_info ''a'' ''build'' True False 0 [] 0] ! k)"
    by (simp add: list_queue_def mk_info_def runtime_included_def)
  have d: "Queue_JobInfo (list_queue 0) [mk_info ''a'' ''build'' True False 0 [] 0]
     = [mk_info ''a'' ''build'' True False 0 [] 0]"
    by (simp add: list_queue_def)
  have e: "\<not> runtime_included (\<lambda>i k. 5) (2 * Second) Duration 0
        (mk_info ''a'' ''build'' True False 0 [] 0)"
    by (simp add: mk_info_def runtime_included_def)
  show ?thesis
    using a b d e RecentTiming_no_match_empty_report [OF a b c, of 3] by blast
qed

subsection \<open>The error reports\<close>

lemma errorReports_eq:
  "errorReports xs acc =
     (if list_ex (\<lambda>kv. Errors_Count (snd kv) = 0) xs then Panics ''integer divide by zero''
      else Returns (acc @ map error_row xs))"
proof (induction xs arbitrary: acc)
  case Nil
  then show ?case by simp
next
  case (Cons kv xs)
  obtain k v where kv: "kv = (k, v)"
    by (cases kv)
  show ?case
    by (simp add: kv Cons.IH error_row_def)
qed

lemma set_map_set: "set (map_set k v m) \<subseteq> insert (k, v) (set m)"
  unfolding map_set_def by (induction m) auto

lemma map_get_cases: "map_get z m k = z \<or> (k, map_get z m k) \<in> set m"
  by (auto simp: map_get_def map_of_SomeD split: option.splits)

lemma uniqueErrors_distinct: "distinct (uniqueErrors seed es)"
proof -
  have "distinct (map fst m) \<Longrightarrow> distinct (map fst (foldl (\<lambda>errs e. map_set e () errs) m es))"
    for m :: "(string \<times> unit) list"
    by (induction es arbitrary: m) (simp_all add: distinct_map_set)
  then have "distinct (map fst (foldl (\<lambda>errs e. map_set e () errs) [] es))"
    by simp
  then show ?thesis
    by (simp add: uniqueErrors_def distinct_map_range_order)
qed

lemma uniqueErrors_set: "set (uniqueErrors seed es) = set es"
proof -
  have "fst ` set (foldl (\<lambda>errs e. map_set e () errs) m es) = fst ` set m \<union> set es"
    for m :: "(string \<times> unit) list"
    by (induction es arbitrary: m) (auto simp: map_set_def dom_update)
  then show ?thesis
    by (simp add: uniqueErrors_def set_range_order)
qed

lemma counts_within_mono: "counts_within b coll \<Longrightarrow> b \<le> b' \<Longrightarrow> counts_within b' coll"
  unfolding counts_within_def list_all_iff by (meson order_trans)

lemma counts_within_step:
  assumes "counts_within b coll"
    and "Errors_Count v = Errors_Count (map_get zero_JobErrorsForType coll k) + 1"
  shows "counts_within (Suc b) (map_set k v coll)"
proof -
  have old: "\<exists>n. n \<le> b \<and> Errors_Count (map_get zero_JobErrorsForType coll k) = of_nat n"
  proof (cases "map_get zero_JobErrorsForType coll k = zero_JobErrorsForType")
    case True
    then show ?thesis
      by (auto simp: zero_JobErrorsForType_def intro: exI [of _ 0])
  next
    case False
    then have "(k, map_get zero_JobErrorsForType coll k) \<in> set coll"
      using map_get_cases [of zero_JobErrorsForType coll k] by simp
    then show ?thesis
      using assms(1) unfolding counts_within_def list_all_iff by fastforce
  qed
  then obtain n where n: "n \<le> b" "Errors_Count (map_get zero_JobErrorsForType coll k) = of_nat n"
    by blast
  have new: "\<exists>m. 1 \<le> m \<and> m \<le> Suc b \<and> Errors_Count v = of_nat m"
    using n assms(2) by (intro exI [of _ "Suc n"]) simp
  have "\<exists>m. 1 \<le> m \<and> m \<le> Suc b \<and> Errors_Count (snd kv) = of_nat m"
    if "kv \<in> set (map_set k v coll)" for kv
  proof (cases "kv = (k, v)")
    case True
    then show ?thesis using new by simp
  next
    case False
    then have "kv \<in> set coll"
      using that set_map_set [of k v coll] by auto
    then show ?thesis
      using assms(1) unfolding counts_within_def list_all_iff
      by (meson le_SucI)
  qed
  then show ?thesis
    unfolding counts_within_def list_all_iff by blast
qed

lemma RecentErrors_loop_counts:
  assumes "f = AllErrors \<or> f = UniqueErrors \<or> f = StatsOnly"
    and "counts_within b coll"
  shows "\<exists>coll'. RecentErrors_loop clock window f i infos coll = Inr coll'
            \<and> counts_within (b + length infos) coll'"
  using assms(2)
proof (induction infos arbitrary: i b coll)
  case Nil
  then show ?case by simp
next
  case (Cons info rest)
  let ?val = "map_get zero_JobErrorsForType coll (Name (Info_Type info))"
  let ?v1 = "?val\<lparr>Errors_Count := Errors_Count ?val + 1,
                     Errors_Total := Errors_Total ?val + ErrorCount (Info_Status info),
                     Errors_Errors := Errors_Errors ?val @ Status_Errors (Info_Status info)\<rparr>"
  let ?v2 = "?val\<lparr>Errors_Count := Errors_Count ?val + 1,
                     Errors_Total := Errors_Total ?val + ErrorCount (Info_Status info)\<rparr>"
  let ?goal = "\<lambda>r. \<exists>coll'. r = Inr coll' \<and> counts_within (b + length (info # rest)) coll'"
  have skip: "?goal (RecentErrors_loop clock window f (Suc i) rest coll)"
    using Cons.IH [OF counts_within_mono [OF Cons.prems, of "Suc b"], of "Suc i"] by simp
  have step: "?goal (RecentErrors_loop clock window f (Suc i) rest
                 (map_set (Name (Info_Type info)) v coll))"
    if "Errors_Count v = Errors_Count ?val + 1" for v
    using Cons.IH [OF counts_within_step [OF Cons.prems that], of "Suc i"] by simp
  have s1: "?goal (RecentErrors_loop clock window f (Suc i) rest
                 (map_set (Name (Info_Type info)) ?v1 coll))"
    by (rule step) simp
  have s2: "?goal (RecentErrors_loop clock window f (Suc i) rest
                 (map_set (Name (Info_Type info)) ?v2 coll))"
    by (rule step) simp
  have "RecentErrors_loop clock window f i (info # rest) coll
          = RecentErrors_loop clock window f (Suc i) rest coll
      \<or> RecentErrors_loop clock window f i (info # rest) coll
          = RecentErrors_loop clock window f (Suc i) rest
              (map_set (Name (Info_Type info)) ?v1 coll)
      \<or> RecentErrors_loop clock window f i (info # rest) coll
          = RecentErrors_loop clock window f (Suc i) rest
              (map_set (Name (Info_Type info)) ?v2 coll)"
    using assms(1) by (elim disjE) (simp_all add: Let_def)
  then consider
      (a) "RecentErrors_loop clock window f i (info # rest) coll
          = RecentErrors_loop clock window f (Suc i) rest coll"
    | (b) "RecentErrors_loop clock window f i (info # rest) coll
          = RecentErrors_loop clock window f (Suc i) rest
              (map_set (Name (Info_Type info)) ?v1 coll)"
    | (c) "RecentErrors_loop clock window f i (info # rest) coll
          = RecentErrors_loop clock window f (Suc i) rest
              (map_set (Name (Info_Type info)) ?v2 coll)"
    by blast
  then show ?case
  proof cases
    case a
    show ?thesis unfolding a by (rule skip)
  next
    case b
    show ?thesis unfolding b by (rule s1)
  next
    case c
    show ?thesis unfolding c by (rule s2)
  qed
qed

lemma of_nat_64_nonzero: "0 < n \<Longrightarrow> n < 2 ^ 64 \<Longrightarrow> (of_nat n :: 64 word) \<noteq> 0"
proof -
  assume "0 < n" "n < 2 ^ 64"
  then have "\<not> (2::nat) ^ 64 dvd n"
    using nat_dvd_not_less [of n "2 ^ 64"] by blast
  then show ?thesis
    unfolding word_of_nat_eq_0_iff by simp
qed

lemma counts_within_nonzero:
  assumes "counts_within b coll" and "b < 2 ^ 64"
  shows "\<not> list_ex (\<lambda>kv. Errors_Count (snd kv) = 0) coll"
proof -
  have "Errors_Count (snd kv) \<noteq> 0" if kv: "kv \<in> set coll" for kv
  proof -
    obtain n where n: "1 \<le> n" "n \<le> b" "Errors_Count (snd kv) = of_nat n"
      using assms(1) kv unfolding counts_within_def list_all_iff by blast
    have "0 < n"
      using n(1) by simp
    moreover have "n < 2 ^ 64"
      using n(2) assms(2) by (rule le_less_trans)
    ultimately have "(of_nat n :: 64 word) \<noteq> 0"
      by (rule of_nat_64_nonzero)
    then show ?thesis
      using n(3) by simp
  qed
  then show ?thesis
    unfolding list_ex_iff by blast
qed

lemma map_get_apsnd:
  "f z = z \<Longrightarrow> map_get z (map (apsnd f) m) k = f (map_get z m k)"
  by (induction m) (auto simp: map_get_def)

lemma map_set_apsnd:
  "map_set k (f v) (map (apsnd f) m) = map (apsnd f) (map_set k v m)"
  unfolding map_set_def by (induction m) auto

lemma RecentErrors_loop_StatsOnly:
  "RecentErrors_loop clock window AllErrors i infos coll = Inr coll' \<Longrightarrow>
   RecentErrors_loop clock window StatsOnly i infos (map (apsnd without_errors) coll)
     = Inr (map (apsnd without_errors) coll')"
proof (induction infos arbitrary: i coll)
  case Nil
  then show ?case by simp
next
  case (Cons info rest)
  let ?k = "Name (Info_Type info)"
  let ?val = "map_get zero_JobErrorsForType coll ?k"
  let ?v1 = "?val\<lparr>Errors_Count := Errors_Count ?val + 1,
                     Errors_Total := Errors_Total ?val + ErrorCount (Info_Status info),
                     Errors_Errors := Errors_Errors ?val @ Status_Errors (Info_Status info)\<rparr>"
  have z: "without_errors zero_JobErrorsForType = zero_JobErrorsForType"
    by (simp add: without_errors_def zero_JobErrorsForType_def)
  have g: "map_get zero_JobErrorsForType (map (apsnd without_errors) coll) ?k = without_errors ?val"
    by (rule map_get_apsnd [of without_errors, OF z])
  have u: "(without_errors ?val)
              \<lparr>Errors_Count := Errors_Count (without_errors ?val) + 1,
                Errors_Total := Errors_Total (without_errors ?val) + ErrorCount (Info_Status info)\<rparr>
            = without_errors ?v1"
    by (simp add: without_errors_def)
  let ?skip = "\<not> Status_Completed (Info_Status info) \<or> ErrorCount (Info_Status info) = 0
                 \<or> window <s time_Since (clock i 0) (End (Info_Time info))"
  have eqA: "RecentErrors_loop clock window AllErrors i (info # rest) coll
      = (if ?skip then RecentErrors_loop clock window AllErrors (Suc i) rest coll
         else RecentErrors_loop clock window AllErrors (Suc i) rest (map_set ?k ?v1 coll))"
    by (simp add: Let_def)
  have eqS: "RecentErrors_loop clock window StatsOnly i (info # rest) (map (apsnd without_errors) coll)
      = (if ?skip
         then RecentErrors_loop clock window StatsOnly (Suc i) rest (map (apsnd without_errors) coll)
         else RecentErrors_loop clock window StatsOnly (Suc i) rest
                (map (apsnd without_errors) (map_set ?k ?v1 coll)))"
    by (simp add: Let_def g u map_set_apsnd)
  show ?case
  proof (cases ?skip)
    case True
    then have "RecentErrors_loop clock window AllErrors (Suc i) rest coll = Inr coll'"
      using Cons.prems unfolding eqA by simp
    then have "RecentErrors_loop clock window StatsOnly (Suc i) rest (map (apsnd without_errors) coll)
               = Inr (map (apsnd without_errors) coll')"
      by (rule Cons.IH)
    then show ?thesis
      unfolding eqS using True by simp
  next
    case False
    then have "RecentErrors_loop clock window AllErrors (Suc i) rest (map_set ?k ?v1 coll) = Inr coll'"
      using Cons.prems unfolding eqA by simp
    then have "RecentErrors_loop clock window StatsOnly (Suc i) rest
                 (map (apsnd without_errors) (map_set ?k ?v1 coll))
               = Inr (map (apsnd without_errors) coll')"
      by (rule Cons.IH)
    then show ?thesis
      unfolding eqS using False by simp
  qed
qed

lemma error_row_without_errors:
  "error_row (apsnd without_errors kv) = without_errors (error_row kv)"
  by (cases kv) (simp add: error_row_def without_errors_def)

lemma dedupCollector_counts:
  "list_ex (\<lambda>kv. Errors_Count (snd kv) = 0) (dedupCollector seedE coll)
     = list_ex (\<lambda>kv. Errors_Count (snd kv) = 0) coll"
  by (induction coll) (auto simp: dedupCollector_def)

lemma dedupCollector_distinct:
  "kv \<in> set (dedupCollector seedE coll) \<Longrightarrow> distinct (Errors_Errors (error_row kv))"
  by (auto simp: dedupCollector_def error_row_def uniqueErrors_distinct)

lemma RecentErrors_returns:
  assumes "f = AllErrors \<or> f = UniqueErrors \<or> f = StatsOnly"
    and "Second <s window"
    and "length (Queue_JobInfo Q q) < 2 ^ 64"
  shows "\<exists>coll. RecentErrors_loop clock window f 0 (Queue_JobInfo Q q) [] = Inr coll \<and>
           RecentErrors Q q clock seedE seed window f =
             Returns (Inr \<lparr>ErrorsReport_Period = window, ErrorsReport_FilteredByType = False,
                            ErrorsReport_Data =
                              map error_row
                                (range_order seed
                                   (if f = UniqueErrors then dedupCollector seedE coll else coll))\<rparr>)"
proof -
  have w: "\<not> window \<le>s Second"
    using assms(2) by (simp add: word_sle_eq word_sless_alt)
  have v: "ErrorFilter_Validate f = None"
    using assms(1) by (auto simp: ErrorFilter_Validate_def)
  have "counts_within 0 []"
    by (simp add: counts_within_def)
  then obtain coll where coll: "RecentErrors_loop clock window f 0 (Queue_JobInfo Q q) [] = Inr coll"
    and cw: "counts_within (length (Queue_JobInfo Q q)) coll"
    using RecentErrors_loop_counts [OF assms(1), of 0 "[]" clock window 0 "Queue_JobInfo Q q"]
    by auto
  have nz: "\<not> list_ex (\<lambda>kv. Errors_Count (snd kv) = 0) coll"
    using counts_within_nonzero [OF cw assms(3)] .
  let ?c = "if f = UniqueErrors then dedupCollector seedE coll else coll"
  have "\<not> list_ex (\<lambda>kv. Errors_Count (snd kv) = 0) ?c"
    using nz by (simp add: dedupCollector_counts)
  then have "\<not> list_ex (\<lambda>kv. Errors_Count (snd kv) = 0) (range_order seed ?c)"
    by (simp add: list_ex_iff set_range_order)
  then have "errorReports (range_order seed ?c) [] = Returns (map error_row (range_order seed ?c))"
    by (simp add: errorReports_eq)
  then show ?thesis
    using coll v w by (simp add: RecentErrors_def)
qed

text \<open>
  Claim C7. For every enumeration (of fewer than \<open>2 ^ 64\<close> entries, so that no count
  wraps to zero) and every window greater than one second, \<open>RecentErrors\<close> returns a
  report; with \<open>UniqueErrors\<close> no row has a message twice; with \<open>StatsOnly\<close> every
  row has an empty list of messages and the rows are those of \<open>AllErrors\<close> with the
  messages removed: the same types with the same \<open>Count\<close>, \<open>Total\<close> and
  \<open>Average\<close>, whatever order the maps are visited in.
\<close>

theorem RecentErrors_unique_and_stats_only:
  assumes "Second <s window"
    and "length (Queue_JobInfo Q q) < 2 ^ 64"
  shows "(\<exists>rep. RecentErrors Q q clock seedE seed window UniqueErrors = Returns (Inr rep) \<and>
            (\<forall>r \<in> set (ErrorsReport_Data rep). distinct (Errors_Errors r))) \<and>
         (\<exists>rep rep'.
            RecentErrors Q q clock seedE seed window StatsOnly = Returns (Inr rep) \<and>
            RecentErrors Q q clock seedE' seed' window AllErrors = Returns (Inr rep') \<and>
            (\<forall>r \<in> set (ErrorsReport_Data rep). Errors_Errors r = []) \<and>
            set (ErrorsReport_Data rep) = without_errors ` set (ErrorsReport_Data rep'))"
proof
  obtain coll where
    "RecentErrors Q q clock seedE seed window UniqueErrors =
       Returns (Inr \<lparr>ErrorsReport_Period = window, ErrorsReport_FilteredByType = False,
                      ErrorsReport_Data =
                        map error_row (range_order seed (dedupCollector seedE coll))\<rparr>)"
    using RecentErrors_returns [OF _ assms, of UniqueErrors clock seedE seed] by auto
  moreover have "\<forall>r \<in> set (map error_row (range_order seed (dedupCollector seedE coll))).
                   distinct (Errors_Errors r)"
    by (auto simp: set_range_order dedupCollector_distinct)
  ultimately show "\<exists>rep. RecentErrors Q q clock seedE seed window UniqueErrors = Returns (Inr rep) \<and>
            (\<forall>r \<in> set (ErrorsReport_Data rep). distinct (Errors_Errors r))"
    by simp
next
  obtain collA where a1: "RecentErrors_loop clock window AllErrors 0 (Queue_JobInfo Q q) [] = Inr collA"
    and a2: "RecentErrors Q q clock seedE' seed' window AllErrors =
       Returns (Inr \<lparr>ErrorsReport_Period = window, ErrorsReport_FilteredByType = False,
                      ErrorsReport_Data = map error_row (range_order seed' collA)\<rparr>)"
    using RecentErrors_returns [OF _ assms, of AllErrors clock seedE' seed'] by auto
  obtain collS where s1: "RecentErrors_loop clock window StatsOnly 0 (Queue_JobInfo Q q) [] = Inr collS"
    and s2: "RecentErrors Q q clock seedE seed window StatsOnly =
       Returns (Inr \<lparr>ErrorsReport_Period = window, ErrorsReport_FilteredByType = False,
                      ErrorsReport_Data = map error_row (range_order seed collS)\<rparr>)"
    using RecentErrors_returns [OF _ assms, of StatsOnly clock seedE seed] by auto
  have cs: "collS = map (apsnd without_errors) collA"
    using RecentErrors_loop_StatsOnly [OF a1] s1 by simp
  have e: "set (map error_row (range_order seed collS))
             = without_errors ` set (map error_row (range_order seed' collA))"
    by (simp add: set_range_order cs image_image error_row_without_errors)
  have ne: "Errors_Errors (without_errors r) = []" for r
    by (simp add: without_errors_def)
  show "\<exists>rep rep'.
            RecentErrors Q q clock seedE seed window StatsOnly = Returns (Inr rep) \<and>
            RecentErrors Q q clock seedE' seed' window AllErrors = Returns (Inr rep') \<and>
            (\<forall>r \<in> set (ErrorsReport_Data rep). Errors_Errors r = []) \<and>
            set (ErrorsReport_Data rep) = without_errors ` set (ErrorsReport_Data rep')"
    using a2 s2 e by (simp add: ne)
qed

text \<open>
  The two failed jobs of the example share the message \<open>boom\<close>: all errors list it
  twice, the unique errors once.
\<close>

lemma example_failed_report:
  "RecentErrors (list_queue 0) example_failed (\<lambda>i k. 5) (\<lambda>k. 0) 0 (2 * Second) AllErrors
     = Returns (Inr \<lparr>ErrorsReport_Period = 2 * Second, ErrorsReport_FilteredByType = False,
                     ErrorsReport_Data =
                       [\<lparr>Errors_ID = ''build'', Errors_Count = 2, Errors_Total = 7,
                         Errors_Average = 3, Errors_Errors = [''boom'', ''x'', ''boom'']\<rparr>]\<rparr>)"
  by (simp add: RecentErrors_def ErrorFilter_Validate_def Second_def list_queue_def
        example_failed_def mk_info_def time_Since_def time_Sub_def map_get_def map_set_def
        zero_JobErrorsForType_def float64_def round_float64_def go_quot_def
        signed_divide_int_def)

lemma example_unique_report:
  "RecentErrors (list_queue 0) example_failed (\<lambda>i k. 5) (\<lambda>k. 0) 0 (2 * Second) UniqueErrors
     = Returns (Inr \<lparr>ErrorsReport_Period = 2 * Second, ErrorsReport_FilteredByType = False,
                     ErrorsReport_Data =
                       [\<lparr>Errors_ID = ''build'', Errors_Count = 2, Errors_Total = 7,
                         Errors_Average = 3, Errors_Errors = [''boom'', ''x'']\<rparr>]\<rparr>)"
  by (simp add: RecentErrors_def ErrorFilter_Validate_def Second_def list_queue_def
        example_failed_def mk_info_def time_Since_def time_Sub_def map_get_def map_set_def
        zero_JobErrorsForType_def float64_def round_float64_def go_quot_def
        signed_divide_int_def dedupCollector_def uniqueErrors_def)

theorem RecentErrors_unique_and_stats_only_witness:
  "Second <s 2 * Second \<and>
   length (Queue_JobInfo (list_queue 0) example_failed) < 2 ^ 64 \<and>
   RecentErrors (list_queue 0) example_failed (\<lambda>i k. 5) (\<lambda>k. 0) 0 (2 * Second) UniqueErrors
     = Returns (Inr \<lparr>ErrorsReport_Period = 2 * Second, ErrorsReport_FilteredByType = False,
                     ErrorsReport_Data =
                       [\<lparr>Errors_ID = ''build'', Errors_Count = 2, Errors_Total = 7,
                         Errors_Average = 3, Errors_Errors = [''boom'', ''x'']\<rparr>]\<rparr>) \<and>
   (\<exists>rep. RecentErrors (list_queue 0) example_failed (\<lambda>i k. 5) (\<lambda>k. 0) 0 (2 * Second)
             UniqueErrors = Returns (Inr rep) \<and>
          (\<forall>r \<in> set (ErrorsReport_Data rep). distinct (Errors_Errors r))) \<and>
   (\<exists>rep rep'.
      RecentErrors (list_queue 0) example_failed (\<lambda>i k. 5) (\<lambda>k. 0) 0 (2 * Second) StatsOnly
        = Returns (Inr rep) \<and>
      RecentErrors (list_queue 0) example_failed (\<lambda>i k. 5) (\<lambda>k. 2) 3 (2 * Second) AllErrors
        = Returns (Inr rep') \<and>
      (\<forall>r \<in> set (ErrorsReport_Data rep). Errors_Errors r = []) \<and>
      set (ErrorsReport_Data rep) = without_errors ` set (ErrorsReport_Data rep'))"
proof -
  have a: "Second <s 2 * Second"
    by (simp add: Second_def)
  have b: "length (Queue_JobInfo (list_queue 0) example_failed) < 2 ^ 64"
    by (simp add: list_queue_def example_failed_def)
  show ?thesis
    using a b example_unique_report
      RecentErrors_unique_and_stats_only
        [OF a b, of "\<lambda>i k. 5" "\<lambda>k. 0" 0 "\<lambda>k. 2" 3]
    by blast
qed

subsection \<open>The average of the error reports\<close>

lemma int_div_le_self': "0 \<le> (a::int) \<Longrightarrow> 0 < b \<Longrightarrow> a div b \<le> a"
  by (metis div_by_1 int_one_le_iff_zero_less zdiv_mono2 zero_less_one)

lemma go_quot_truncates:
  assumes "0 <s y"
  shows "sint (go_quot x y) = sgn (sint x) * (\<bar>sint x\<bar> div sint y)"
proof -
  define a where "a = sint x"
  define b where "b = sint y"
  have b: "0 < b"
    using assms by (simp add: b_def word_sless_alt)
  have lo: "- (2 ^ 63) \<le> a" and hi: "a < 2 ^ 63"
    using sint_ge [of x] sint_lt [of x] by (simp_all add: a_def)
  have q: "a sdiv b = sgn a * (\<bar>a\<bar> div b)"
    using b by (simp add: signed_divide_int_def)
  have le: "\<bar>a\<bar> div b \<le> \<bar>a\<bar>"
    using b by (simp add: int_div_le_self')
  have nonneg: "0 \<le> \<bar>a\<bar> div b"
    using b by (simp add: pos_imp_zdiv_nonneg_iff)
  have "- (2 ^ 63) \<le> sgn a * (\<bar>a\<bar> div b) \<and> sgn a * (\<bar>a\<bar> div b) < 2 ^ 63"
  proof (cases "0 \<le> a")
    case True
    then show ?thesis
      using le nonneg hi by (cases "a = 0") (simp_all add: sgn_if)
  next
    case False
    then show ?thesis
      using le nonneg lo by (simp add: sgn_if)
  qed
  then have s: "signed_take_bit 63 (a sdiv b) = a sdiv b"
    unfolding q by (intro signed_take_bit_int_eq_self) simp_all
  have "sint (go_quot x y) = sint (word_of_int (a sdiv b) :: 64 word)"
    by (simp only: go_quot_def a_def b_def)
  also have "\<dots> = signed_take_bit 63 (a sdiv b)"
    unfolding sint_sbintrunc' by simp
  also have "\<dots> = sgn a * (\<bar>a\<bar> div b)"
    using s q by simp
  finally show ?thesis
    unfolding a_def b_def .
qed

lemma float64_exact:
  "\<bar>sint x\<bar> < 2 ^ 53 \<Longrightarrow> float64 x = real_of_int (sint x)"
  by (simp add: float64_def round_float64_def)

lemma errorReports_rows:
  assumes "errorReports xs [] = Returns reports" and "r \<in> set reports"
  shows "Errors_Count r \<noteq> 0 \<and>
         Errors_Average r = float64 (go_quot (Errors_Total r) (Errors_Count r))"
proof -
  have nz: "\<not> list_ex (\<lambda>kv. Errors_Count (snd kv) = 0) xs" and rs: "reports = map error_row xs"
    using assms(1) by (simp_all add: errorReports_eq split: if_splits)
  then obtain kv where kv: "kv \<in> set xs" "r = error_row kv"
    using assms(2) by auto
  have "Errors_Count (snd kv) \<noteq> 0"
    using nz kv(1) by (auto simp: list_ex_iff)
  then show ?thesis
    by (simp add: kv(2) error_row_def)
qed

lemma RecentErrors_rows:
  assumes "RecentErrors Q q clock seedE seed window f = Returns (Inr rep)"
  shows "\<exists>xs. errorReports xs [] = Returns (ErrorsReport_Data rep)"
  using assms
  by (auto simp: RecentErrors_def split: option.splits if_splits sum.splits outcome.splits)

lemma RecentJobErrors_rows:
  assumes "RecentJobErrors Q q clock seedE seed jobType window f = Returns (Inr rep)"
  shows "\<exists>xs. errorReports xs [] = Returns (ErrorsReport_Data rep)"
  using assms
  by (auto simp: RecentJobErrors_def split: option.splits if_splits sum.splits outcome.splits)

text \<open>
  Claim C8. Every row of a report of \<open>RecentErrors\<close> or \<open>RecentJobErrors\<close> with
  \<open>Count\<close> at least one has as \<open>Average\<close> the conversion to \<open>float64\<close> of the
  integer quotient of \<open>Total\<close> by \<open>Count\<close>; the quotient is the truncated one, the
  sign of \<open>Total\<close> times the whole part of the quotient of the magnitudes, and below
  \<open>2 ^ 53\<close> the conversion is exact.
\<close>

theorem error_rows_average_truncates:
  assumes "RecentErrors Q q clock seedE seed window f = Returns (Inr rep)
           \<or> RecentJobErrors Q q clock seedE seed jobType window f = Returns (Inr rep)"
    and "r \<in> set (ErrorsReport_Data rep)"
    and "0 <s Errors_Count r"
  shows "Errors_Average r = float64 (go_quot (Errors_Total r) (Errors_Count r)) \<and>
         sint (go_quot (Errors_Total r) (Errors_Count r))
           = sgn (sint (Errors_Total r)) * (\<bar>sint (Errors_Total r)\<bar> div sint (Errors_Count r)) \<and>
         (\<bar>sint (Errors_Total r)\<bar> < 2 ^ 53 \<longrightarrow>
            Errors_Average r
              = real_of_int (sgn (sint (Errors_Total r))
                              * (\<bar>sint (Errors_Total r)\<bar> div sint (Errors_Count r))))"
proof -
  obtain xs where xs: "errorReports xs [] = Returns (ErrorsReport_Data rep)"
    using assms(1) by (metis RecentErrors_rows RecentJobErrors_rows)
  have avg: "Errors_Average r = float64 (go_quot (Errors_Total r) (Errors_Count r))"
    using errorReports_rows [OF xs assms(2)] by simp
  have t: "sint (go_quot (Errors_Total r) (Errors_Count r))
           = sgn (sint (Errors_Total r)) * (\<bar>sint (Errors_Total r)\<bar> div sint (Errors_Count r))"
    by (rule go_quot_truncates [OF assms(3)])
  have c: "0 < sint (Errors_Count r)"
    using assms(3) by (simp add: word_sless_alt)
  have "\<bar>sint (go_quot (Errors_Total r) (Errors_Count r))\<bar> \<le> \<bar>sint (Errors_Total r)\<bar>"
    unfolding t using c
    by (simp add: abs_mult abs_sgn_eq int_div_le_self' pos_imp_zdiv_nonneg_iff)
  then have "\<bar>sint (Errors_Total r)\<bar> < 2 ^ 53 \<Longrightarrow>
             float64 (go_quot (Errors_Total r) (Errors_Count r))
               = real_of_int (sint (go_quot (Errors_Total r) (Errors_Count r)))"
    by (intro float64_exact) linarith
  then show ?thesis
    using avg t by simp
qed

theorem error_rows_average_truncates_witness:
  "RecentErrors (list_queue 0) example_failed (\<lambda>i k. 5) (\<lambda>k. 0) 0 (2 * Second) AllErrors
     = Returns (Inr \<lparr>ErrorsReport_Period = 2 * Second, ErrorsReport_FilteredByType = False,
                     ErrorsReport_Data =
                       [\<lparr>Errors_ID = ''build'', Errors_Count = 2, Errors_Total = 7,
                         Errors_Average = 3, Errors_Errors = [''boom'', ''x'', ''boom'']\<rparr>]\<rparr>) \<and>
   (0::go_int) <s 2 \<and>
   sint (go_quot (7::go_int) 2) = 3 \<and>
   float64 (go_quot (7::go_int) 2) = 3"
proof -
  let ?r = "\<lparr>Errors_ID = ''build'', Errors_Count = 2, Errors_Total = 7,
             Errors_Average = 3, Errors_Errors = [''boom'', ''x'', ''boom'']\<rparr>"
  let ?rep = "\<lparr>ErrorsReport_Period = 2 * Second, ErrorsReport_FilteredByType = False,
               ErrorsReport_Data = [?r]\<rparr>"
  have a: "RecentErrors (list_queue 0) example_failed (\<lambda>i k. 5) (\<lambda>k. 0) 0 (2 * Second) AllErrors
             = Returns (Inr ?rep)
           \<or> RecentJobErrors (list_queue 0) example_failed (\<lambda>i k. 5) (\<lambda>k. 0) 0 ''build''
               (2 * Second) AllErrors = Returns (Inr ?rep)"
    using example_failed_report by simp
  have b: "?r \<in> set (ErrorsReport_Data ?rep)"
    by simp
  have c: "0 <s Errors_Count ?r"
    by (simp add: word_sless_alt)
  show ?thesis
    using example_failed_report c error_rows_average_truncates [OF a b c]
    by simp
qed

subsection \<open>CompleteJobsByPattern\<close>

lemma matchesStatusFilter_predicate:
  "matchesStatusFilter lt now info f = status_predicate f lt now info"
  by (cases f) (simp_all add: matchesStatusFilter_def)

lemma getJob_resolves:
  "getJob Q w info
     = (resolve_for_mutation Q (qstate w) info, called (resolution_call Q info) w)"
  by (simp add: getJob_def resolve_for_mutation_def resolution_call_def
        split: option.splits)

lemma completeJob_completes:
  "completeJob Q w j
     = (case completion Q (qstate w) j of
          (err, q1, cs) \<Rightarrow> (err, w\<lparr>qstate := q1, calls := calls w @ cs\<rparr>))"
  by (simp add: completeJob_def completion_def called_def errors_Wrap_def Let_def
        split: prod.splits option.splits)

lemma selected_by_pattern_Cons:
  "selected_by_pattern matchString regex lt clock f i (info # rest)
      = (if matchString regex (Info_ID info) \<and> status_predicate f lt (clock i 0) info
         then info # selected_by_pattern matchString regex lt clock f (Suc i) rest
         else selected_by_pattern matchString regex lt clock f (Suc i) rest)"
  by (simp add: selected_by_pattern_def)

lemma CompleteJobsByPattern_loop_refines:
  "CompleteJobsByPattern_loop Q matchString regex clock f i infos w c
     = (case complete_selected Q
               (selected_by_pattern matchString regex (Queue_LockTimeout Q) clock f i infos)
               (qstate w) of
          (q', cs, es) \<Rightarrow> (w\<lparr>qstate := q', calls := calls w @ cs\<rparr>, c @ es))"
proof (induction infos arbitrary: i w c)
  case Nil
  then show ?case by (simp add: selected_by_pattern_def)
next
  case (Cons info rest)
  show ?case
    by (simp add: selected_by_pattern_Cons matchesStatusFilter_predicate Cons.IH
          getJob_resolves completeJob_completes called_def
          catcher_Wrapf_def catcher_Add_def errors_Wrap_def
          split: prod.splits sum.splits option.splits)
qed

lemma completion_calls:
  "completion Q q j = (err, q1, cs1) \<Longrightarrow>
     resolutions (cs1 @ cs) = resolutions cs \<and>
     completed_jobs (cs1 @ cs) = j # completed_jobs cs"
  by (auto simp: completion_def split: prod.splits option.splits)

lemma resolutions_resolution_call:
  "resolutions (resolution_call Q info # cs) = resolution_call Q info # resolutions cs"
  "completed_jobs (resolution_call Q info # cs) = completed_jobs cs"
  by (simp_all add: resolution_call_def)

lemma complete_selected_resolutions:
  "complete_selected Q sel q = (q', cs, es) \<Longrightarrow>
     resolutions cs = map (resolution_call Q) sel"
proof (induction sel arbitrary: q q' cs es)
  case Nil
  then show ?case by simp
next
  case (Cons info rest)
  show ?case
  proof (cases "resolve_for_mutation Q q info")
    case (Inl err)
    obtain q2 cs2 es2 where r: "complete_selected Q rest q = (q2, cs2, es2)"
      by (cases "complete_selected Q rest q")
    have "cs = resolution_call Q info # cs2"
      using Cons.prems Inl r by simp
    then show ?thesis
      using Cons.IH [OF r] by (simp add: resolutions_resolution_call)
  next
    case (Inr j)
    obtain err q1 cs1 where c: "completion Q q j = (err, q1, cs1)"
      by (cases "completion Q q j")
    obtain q2 cs2 es2 where r: "complete_selected Q rest q1 = (q2, cs2, es2)"
      by (cases "complete_selected Q rest q1")
    have "cs = resolution_call Q info # cs1 @ cs2"
      using Cons.prems Inr c r by (cases err) simp_all
    then show ?thesis
      using Cons.IH [OF r] completion_calls [OF c, of cs2]
      by (simp add: resolutions_resolution_call)
  qed
qed

lemma complete_selected_no_failure:
  "complete_selected Q sel q = (q', cs, es) \<Longrightarrow> (es = []) = all_succeed Q sel q"
proof (induction sel arbitrary: q q' cs es)
  case Nil
  then show ?case by simp
next
  case (Cons info rest)
  show ?case
  proof (cases "resolve_for_mutation Q q info")
    case (Inl err)
    then show ?thesis
      using Cons.prems by (auto split: prod.splits)
  next
    case (Inr j)
    obtain err q1 cs1 where c: "completion Q q j = (err, q1, cs1)"
      by (cases "completion Q q j")
    obtain q2 cs2 es2 where r: "complete_selected Q rest q1 = (q2, cs2, es2)"
      by (cases "complete_selected Q rest q1")
    show ?thesis
      using Cons.prems Inr c r Cons.IH [OF r] by (cases err) auto
  qed
qed

lemma complete_selected_completed:
  "complete_selected Q sel q = (q', cs, es) \<Longrightarrow> all_succeed Q sel q \<Longrightarrow>
     length (completed_jobs cs) = length sel"
proof (induction sel arbitrary: q q' cs es)
  case Nil
  then show ?case by simp
next
  case (Cons info rest)
  show ?case
  proof (cases "resolve_for_mutation Q q info")
    case (Inl err)
    then show ?thesis
      using Cons.prems by simp
  next
    case (Inr j)
    obtain err q1 cs1 where c: "completion Q q j = (err, q1, cs1)"
      by (cases "completion Q q j")
    obtain q2 cs2 es2 where r: "complete_selected Q rest q1 = (q2, cs2, es2)"
      by (cases "complete_selected Q rest q1")
    have e: "err = None"
      using Cons.prems(2) Inr c by (cases err) simp_all
    have a: "all_succeed Q rest q1"
      using Cons.prems(2) Inr c e by simp
    have "cs = resolution_call Q info # cs1 @ cs2"
      using Cons.prems(1) Inr c r e by simp
    then show ?thesis
      using Cons.IH [OF r a] completion_calls [OF c, of cs2]
      by (simp add: resolutions_resolution_call)
  qed
qed

text \<open>
  Claim C10. Under a valid status filter, a pattern that \<open>regexp.Compile\<close> refuses makes
  \<open>CompleteJobsByPattern\<close> fail with the wrapped "invalid regexp" error and leaves the
  queue untouched: no call is recorded, not even the enumeration, and the state is the same.
  For a pattern that compiles, the function enumerates once and then acts on the queue as
  \<open>complete_selected\<close> says, on the entries whose logical ID matches the pattern and whose
  info satisfies the status-filter predicate of the spec's table, and on no other entry:
  the resolutions in the record of calls are those of the selected entries, one each and in
  order, every resolved job is handed to \<open>Complete\<close> (and to \<open>CompleteRetrying\<close> on a
  queue with the retry extension), and the queue ends in the state these calls give. The
  function returns nil exactly when every resolution and completion of a selected entry
  succeeds, and then \<open>Complete\<close> was called once for each selected entry.
\<close>

theorem CompleteJobsByPattern_pattern_and_filter:
  assumes "StatusFilter_Validate f = None"
  shows "(\<forall>err. Compile R pattern = Inl err \<longrightarrow>
            CompleteJobsByPattern Q R clock w f pattern
              = (Some (ErrWrap err ''invalid regexp''), w)) \<and>
         (\<forall>regex q' cs es.
            Compile R pattern = Inr regex \<longrightarrow>
            complete_selected Q
              (selected_by_pattern (MatchString R) regex (Queue_LockTimeout Q) clock f 0
                 (Queue_JobInfo Q (qstate w)))
              (qstate w) = (q', cs, es) \<longrightarrow>
            CompleteJobsByPattern Q R clock w f pattern
              = (catcher_Resolve es, w\<lparr>qstate := q', calls := calls w @ Call_JobInfo # cs\<rparr>) \<and>
            resolutions cs
              = map (resolution_call Q)
                  (selected_by_pattern (MatchString R) regex (Queue_LockTimeout Q) clock f 0
                     (Queue_JobInfo Q (qstate w))) \<and>
            (fst (CompleteJobsByPattern Q R clock w f pattern) = None)
              = all_succeed Q
                  (selected_by_pattern (MatchString R) regex (Queue_LockTimeout Q) clock f 0
                     (Queue_JobInfo Q (qstate w)))
                  (qstate w) \<and>
            (all_succeed Q
               (selected_by_pattern (MatchString R) regex (Queue_LockTimeout Q) clock f 0
                  (Queue_JobInfo Q (qstate w)))
               (qstate w)
             \<longrightarrow> length (completed_jobs cs)
                   = length (selected_by_pattern (MatchString R) regex (Queue_LockTimeout Q)
                               clock f 0 (Queue_JobInfo Q (qstate w)))))"
proof (intro conjI allI impI)
  fix err
  assume "Compile R pattern = Inl err"
  then show "CompleteJobsByPattern Q R clock w f pattern = (Some (ErrWrap err ''invalid regexp''), w)"
    using assms by (simp add: CompleteJobsByPattern_def)
next
  fix regex q' cs es
  let ?sel = "selected_by_pattern (MatchString R) regex (Queue_LockTimeout Q) clock f 0
                (Queue_JobInfo Q (qstate w))"
  assume r: "Compile R pattern = Inr regex"
    and run: "complete_selected Q ?sel (qstate w) = (q', cs, es)"
  show res: "CompleteJobsByPattern Q R clock w f pattern
       = (catcher_Resolve es, w\<lparr>qstate := q', calls := calls w @ Call_JobInfo # cs\<rparr>)"
    using assms r run
    by (simp add: CompleteJobsByPattern_def CompleteJobsByPattern_loop_refines called_def)
  show "resolutions cs = map (resolution_call Q) ?sel"
    by (rule complete_selected_resolutions [OF run])
  show "(fst (CompleteJobsByPattern Q R clock w f pattern) = None) = all_succeed Q ?sel (qstate w)"
    using complete_selected_no_failure [OF run] by (simp add: res catcher_Resolve_def)
  show "length (completed_jobs cs) = length ?sel" if "all_succeed Q ?sel (qstate w)"
    by (rule complete_selected_completed [OF run that])
qed

text \<open>
  The scenario of the spec: a queue holding the pending jobs build-1, build-2 and test-1,
  under the filter \<open>All\<close>. The pattern "[" fails and nothing is called; the pattern
  "^build-" completes build-1 and build-2, leaves test-1 pending and returns nil. On a queue
  with the retry extension and under the filter \<open>Pending\<close>, the pending retryable job is
  resolved by its attempt number and handed to both \<open>Complete\<close> and \<open>CompleteRetrying\<close>,
  and the matching job that is already completed is not touched.
\<close>

lemma example_compile:
  "Compile prefix_regexp ''['' = Inl (ErrNew ''error parsing regexp: missing closing ]'')"
  "Compile prefix_regexp ''^build-'' = Inr ''build-''"
  by (simp_all add: prefix_regexp_def literal_char_def)

lemma example_selected:
  "selected_by_pattern (MatchString prefix_regexp) ''build-'' 0 (\<lambda>i k. 0) All 0 example_builds
   = [mk_info ''build-1'' ''build'' False False 0 [] 0,
      mk_info ''build-2'' ''build'' False False 0 [] 0]"
  "selected_by_pattern (MatchString prefix_regexp) ''build-'' 0 (\<lambda>i k. 0) Pending 0
     [example_retryable, mk_info ''build-2'' ''build'' False True 0 [] 0]
   = [example_retryable]"
  by (simp_all add: selected_by_pattern_def example_builds_def prefix_regexp_def mk_info_def
        example_retryable_def enumerate_eq_zip upt_conv_Cons)

lemma example_run:
  "complete_selected (list_queue 0)
     [mk_info ''build-1'' ''build'' False False 0 [] 0,
      mk_info ''build-2'' ''build'' False False 0 [] 0]
     example_builds
   = ([mk_info ''build-1'' ''build'' False True 0 [] 0,
       mk_info ''build-2'' ''build'' False True 0 [] 0,
       mk_info ''test-1'' ''test'' False False 0 [] 0],
      [Call_Get ''build-1'', Call_Complete \<lparr>Job_ID = ''build-1'', Job_Errors = []\<rparr>,
       Call_Get ''build-2'', Call_Complete \<lparr>Job_ID = ''build-2'', Job_Errors = []\<rparr>],
      [])"
  by (simp add: example_builds_def list_queue_def mk_info_def resolve_for_mutation_def
        completion_def resolution_call_def mark_complete_def)

lemma example_retry_run:
  "complete_selected retry_queue [example_retryable]
     [example_retryable, mk_info ''build-2'' ''build'' False True 0 [] 0]
   = ([(mk_info ''build-1'' ''build'' False True 0 [] 0)
         \<lparr>Info_Retry := \<lparr>Retryable = True, NeedsRetry = False, CurrentAttempt = 2\<rparr>\<rparr>,
       mk_info ''build-2'' ''build'' False True 0 [] 0],
      [Call_GetAttempt ''build-1'' 2,
       Call_Complete \<lparr>Job_ID = ''build-1'', Job_Errors = []\<rparr>,
       Call_CompleteRetrying \<lparr>Job_ID = ''build-1'', Job_Errors = []\<rparr>],
      [])"
  by (simp add: example_retryable_def retry_queue_def list_queue_def mk_info_def
        resolve_for_mutation_def completion_def resolution_call_def mark_complete_def)

theorem CompleteJobsByPattern_pattern_and_filter_witness:
  "StatusFilter_Validate All = None \<and>
   CompleteJobsByPattern (list_queue 0) prefix_regexp (\<lambda>i k. 0) example_world All ''[''
     = (Some (ErrWrap (ErrNew ''error parsing regexp: missing closing ]'') ''invalid regexp''),
        example_world) \<and>
   CompleteJobsByPattern (list_queue 0) prefix_regexp (\<lambda>i k. 0) example_world All ''^build-''
     = (None,
        \<lparr>qstate = [mk_info ''build-1'' ''build'' False True 0 [] 0,
                   mk_info ''build-2'' ''build'' False True 0 [] 0,
                   mk_info ''test-1'' ''test'' False False 0 [] 0],
         calls = [Call_JobInfo,
                  Call_Get ''build-1'', Call_Complete \<lparr>Job_ID = ''build-1'', Job_Errors = []\<rparr>,
                  Call_Get ''build-2'', Call_Complete \<lparr>Job_ID = ''build-2'', Job_Errors = []\<rparr>]\<rparr>) \<and>
   all_succeed (list_queue 0)
     [mk_info ''build-1'' ''build'' False False 0 [] 0,
      mk_info ''build-2'' ''build'' False False 0 [] 0]
     example_builds \<and>
   CompleteJobsByPattern retry_queue prefix_regexp (\<lambda>i k. 0) example_retry_world Pending
       ''^build-''
     = (None,
        \<lparr>qstate = [(mk_info ''build-1'' ''build'' False True 0 [] 0)
                     \<lparr>Info_Retry :=
                        \<lparr>Retryable = True, NeedsRetry = False, CurrentAttempt = 2\<rparr>\<rparr>,
                   mk_info ''build-2'' ''build'' False True 0 [] 0],
         calls = [Call_JobInfo, Call_GetAttempt ''build-1'' 2,
                  Call_Complete \<lparr>Job_ID = ''build-1'', Job_Errors = []\<rparr>,
                  Call_CompleteRetrying \<lparr>Job_ID = ''build-1'', Job_Errors = []\<rparr>]\<rparr>)"
proof -
  have v: "StatusFilter_Validate All = None" "StatusFilter_Validate Pending = None"
    by (simp_all add: StatusFilter_Validate_def)
  have q: "\<And>s. Queue_JobInfo (list_queue 0) s = s"
    "qstate example_world = example_builds" "calls example_world = []"
    "Queue_LockTimeout (list_queue 0) = 0"
    by (simp_all add: list_queue_def example_world_def)
  have qr: "\<And>s. Queue_JobInfo retry_queue s = s"
    "qstate example_retry_world
       = [example_retryable, mk_info ''build-2'' ''build'' False True 0 [] 0]"
    "calls example_retry_world = []"
    "Queue_LockTimeout retry_queue = 0"
    by (simp_all add: retry_queue_def list_queue_def example_retry_world_def)
  note T = CompleteJobsByPattern_pattern_and_filter
             [OF v(1), of prefix_regexp _ "list_queue 0" "\<lambda>i k. 0" example_world]
  note TR = CompleteJobsByPattern_pattern_and_filter
             [OF v(2), of prefix_regexp "''^build-''" retry_queue "\<lambda>i k. 0" example_retry_world]
  have bad: "CompleteJobsByPattern (list_queue 0) prefix_regexp (\<lambda>i k. 0) example_world All ''[''
     = (Some (ErrWrap (ErrNew ''error parsing regexp: missing closing ]'') ''invalid regexp''),
        example_world)"
    using T [of "''[''"] example_compile(1) by blast
  have run: "complete_selected (list_queue 0)
      (selected_by_pattern (MatchString prefix_regexp) ''build-'' (Queue_LockTimeout (list_queue 0))
         (\<lambda>i k. 0) All 0 (Queue_JobInfo (list_queue 0) (qstate example_world)))
      (qstate example_world)
    = ([mk_info ''build-1'' ''build'' False True 0 [] 0,
       mk_info ''build-2'' ''build'' False True 0 [] 0,
       mk_info ''test-1'' ''test'' False False 0 [] 0],
      [Call_Get ''build-1'', Call_Complete \<lparr>Job_ID = ''build-1'', Job_Errors = []\<rparr>,
       Call_Get ''build-2'', Call_Complete \<lparr>Job_ID = ''build-2'', Job_Errors = []\<rparr>],
      [])"
    unfolding q example_selected by (rule example_run)
  note G = T [of "''^build-''", THEN conjunct2, rule_format, OF example_compile(2) run]
  have good: "CompleteJobsByPattern (list_queue 0) prefix_regexp (\<lambda>i k. 0) example_world All
                ''^build-''
     = (None,
        \<lparr>qstate = [mk_info ''build-1'' ''build'' False True 0 [] 0,
                   mk_info ''build-2'' ''build'' False True 0 [] 0,
                   mk_info ''test-1'' ''test'' False False 0 [] 0],
         calls = [Call_JobInfo,
                  Call_Get ''build-1'', Call_Complete \<lparr>Job_ID = ''build-1'', Job_Errors = []\<rparr>,
                  Call_Get ''build-2'', Call_Complete \<lparr>Job_ID = ''build-2'', Job_Errors = []\<rparr>]\<rparr>)"
    using G [THEN conjunct1] by (simp add: catcher_Resolve_def example_world_def)
  have ok: "all_succeed (list_queue 0)
                 (selected_by_pattern (MatchString prefix_regexp) ''build-''
                    (Queue_LockTimeout (list_queue 0)) (\<lambda>i k. 0) All 0
                    (Queue_JobInfo (list_queue 0) (qstate example_world)))
                 (qstate example_world)"
    using G [THEN conjunct2, THEN conjunct2, THEN conjunct1] unfolding good by simp
  have all: "all_succeed (list_queue 0)
     [mk_info ''build-1'' ''build'' False False 0 [] 0,
      mk_info ''build-2'' ''build'' False False 0 [] 0]
     example_builds"
    using ok unfolding q example_selected .
  have runr: "complete_selected retry_queue
      (selected_by_pattern (MatchString prefix_regexp) ''build-'' (Queue_LockTimeout retry_queue)
         (\<lambda>i k. 0) Pending 0 (Queue_JobInfo retry_queue (qstate example_retry_world)))
      (qstate example_retry_world)
    = ([(mk_info ''build-1'' ''build'' False True 0 [] 0)
         \<lparr>Info_Retry := \<lparr>Retryable = True, NeedsRetry = False, CurrentAttempt = 2\<rparr>\<rparr>,
       mk_info ''build-2'' ''build'' False True 0 [] 0],
      [Call_GetAttempt ''build-1'' 2,
       Call_Complete \<lparr>Job_ID = ''build-1'', Job_Errors = []\<rparr>,
       Call_CompleteRetrying \<lparr>Job_ID = ''build-1'', Job_Errors = []\<rparr>],
      [])"
    unfolding qr example_selected by (rule example_retry_run)
  have retry: "CompleteJobsByPattern retry_queue prefix_regexp (\<lambda>i k. 0) example_retry_world
                 Pending ''^build-''
     = (None,
        \<lparr>qstate = [(mk_info ''build-1'' ''build'' False True 0 [] 0)
                     \<lparr>Info_Retry :=
                        \<lparr>Retryable = True, NeedsRetry = False, CurrentAttempt = 2\<rparr>\<rparr>,
                   mk_info ''build-2'' ''build'' False True 0 [] 0],
         calls = [Call_JobInfo, Call_GetAttempt ''build-1'' 2,
                  Call_Complete \<lparr>Job_ID = ''build-1'', Job_Errors = []\<rparr>,
                  Call_CompleteRetrying \<lparr>Job_ID = ''build-1'', Job_Errors = []\<rparr>]\<rparr>)"
    using TR [THEN conjunct2, rule_format, OF example_compile(2) runr, THEN conjunct1]
    by (simp add: catcher_Resolve_def example_retry_world_def)
  show ?thesis
    using v(1) bad good all retry by blast
qed

section \<open>Theorems about the worker pool\<close>

subsection \<open>Abort\<close>

lemma map_of_map_delete_same: "map_of (map_delete k m) k = None"
  by (simp add: map_delete_def map_of_eq_None_iff delete_notin_dom)

lemma Abort_running:
  assumes "map_of (pool_jobs p) jid = Some cancel"
  shows "pool_jobs (snd (Abort Q jid p)) = map_delete jid (pool_jobs p)"
    and "pool_cancelled (snd (Abort Q jid p)) = pool_cancelled p @ [cancel]"
  using assms by (auto simp: Abort_def Let_def split: option.splits prod.splits)

lemma Abort_running_calls:
  assumes "map_of (pool_jobs p) jid = Some cancel"
  shows "\<exists>cs. calls (pool_queue (snd (Abort Q jid p))) = calls (pool_queue p) @ Call_Get jid # cs"
  using assms by (auto simp: Abort_def Let_def called_def split: option.splits prod.splits)

text \<open>
  Claim C4. For every ID that is not in the running-job table, \<open>Abort\<close> fails with the
  "not defined" error and leaves the pool as it was: the table has no entry added or
  removed, no context is cancelled, and the record of queue calls has no new \<open>Get\<close> or
  \<open>Complete\<close>.
\<close>

theorem Abort_not_running:
  "\<not> IsRunning p jid \<Longrightarrow>
     Abort Q jid p = (Some (ErrNew (''job '' @ quoted jid @ '' is not defined'')), p)"
  by (simp add: IsRunning_def Abort_def split: option.splits)

theorem Abort_not_running_witness:
  "\<not> IsRunning (example_pool [(''j1'', 3)] [mk_info ''j2'' ''build'' True False 0 [] 0]) ''j2'' \<and>
   Abort (list_queue 0) ''j2'' (example_pool [(''j1'', 3)] [mk_info ''j2'' ''build'' True False 0 [] 0])
     = (Some (ErrNew (''job '' @ quoted ''j2'' @ '' is not defined'')),
        example_pool [(''j1'', 3)] [mk_info ''j2'' ''build'' True False 0 [] 0])"
proof -
  have a: "\<not> IsRunning (example_pool [(''j1'', 3)] [mk_info ''j2'' ''build'' True False 0 [] 0]) ''j2''"
    by (simp add: IsRunning_def example_pool_def)
  show ?thesis
    using a Abort_not_running [OF a, of "list_queue 0"] by simp
qed

text \<open>
  Claim C5. For every ID that is in the running-job table, \<open>Abort\<close> cancels the entry's
  context and deletes the entry before it consults the queue, whatever the queue then
  answers: after the call, with or without an error, \<open>IsRunning\<close> is false for that ID,
  the table is the old one without the entry, the entry's context is cancelled, and the
  queue has been asked for the job.
\<close>

theorem Abort_running_removes:
  assumes "IsRunning p jid"
  shows "\<not> IsRunning (snd (Abort Q jid p)) jid \<and>
         pool_jobs (snd (Abort Q jid p)) = map_delete jid (pool_jobs p) \<and>
         (\<exists>cancel. map_of (pool_jobs p) jid = Some cancel \<and>
            pool_cancelled (snd (Abort Q jid p)) = pool_cancelled p @ [cancel]) \<and>
         (\<exists>cs. calls (pool_queue (snd (Abort Q jid p)))
                 = calls (pool_queue p) @ Call_Get jid # cs)"
proof -
  obtain cancel where c: "map_of (pool_jobs p) jid = Some cancel"
    using assms by (auto simp: IsRunning_def split: option.splits)
  have j: "pool_jobs (snd (Abort Q jid p)) = map_delete jid (pool_jobs p)"
    using Abort_running(1) [OF c] .
  have "\<not> IsRunning (snd (Abort Q jid p)) jid"
    by (simp add: IsRunning_def j map_of_map_delete_same)
  then show ?thesis
    using c j Abort_running(2) [OF c] Abort_running_calls [OF c] by blast
qed

text \<open>The job of the entry is absent from the queue: \<open>Abort\<close> fails, and the entry is gone.\<close>

theorem Abort_running_removes_witness:
  "IsRunning (example_pool [(''j1'', 3)] []) ''j1'' \<and>
   fst (Abort (list_queue 0) ''j1'' (example_pool [(''j1'', 3)] []))
     = Some (ErrNew (''could not find '' @ quoted ''j1'' @ '' in the queue'')) \<and>
   \<not> IsRunning (snd (Abort (list_queue 0) ''j1'' (example_pool [(''j1'', 3)] []))) ''j1'' \<and>
   pool_cancelled (snd (Abort (list_queue 0) ''j1'' (example_pool [(''j1'', 3)] []))) = [3]"
proof -
  have a: "IsRunning (example_pool [(''j1'', 3)] []) ''j1''"
    by (simp add: IsRunning_def example_pool_def)
  have b: "fst (Abort (list_queue 0) ''j1'' (example_pool [(''j1'', 3)] []))
     = Some (ErrNew (''could not find '' @ quoted ''j1'' @ '' in the queue''))"
    by (simp add: Abort_def example_pool_def list_queue_def called_def)
  have c: "pool_jobs (example_pool [(''j1'', 3)] []) = [(''j1'', 3)]"
    "pool_cancelled (example_pool [(''j1'', 3)] []) = []"
    by (simp_all add: example_pool_def)
  show ?thesis
    using a b Abort_running_removes [OF a, of "list_queue 0"] by (simp add: c)
qed

subsection \<open>AbortAll\<close>

lemma qstate_called: "qstate (called c w) = qstate w"
  by (simp add: called_def)

lemma visited_Cons:
  "ctx_Err ctx i = None \<Longrightarrow> visited ctx i (e # rest) = e # visited ctx (Suc i) rest"
  by (cases ctx) (auto simp: visited_def ctx_Err_def take_Cons' split: if_splits)

lemma visited_stop:
  "ctx_Err ctx i = Some e \<Longrightarrow> visited ctx i entries = []"
  by (cases ctx) (auto simp: visited_def ctx_Err_def split: if_splits)

lemma filter_map_delete:
  "filter (\<lambda>kv. fst kv \<notin> fst ` set es) (map_delete jid m)
     = filter (\<lambda>kv. fst kv \<notin> fst ` set ((jid, cancel) # es)) m"
  by (induction m) (auto simp: map_delete_def AList.delete_eq)

lemma AbortAll_loop_spec:
  "AbortAll_loop Q ctx i entries p c = (p', c') \<Longrightarrow>
     c' = c @ abort_errors Q ctx i entries (qstate (pool_queue p)) \<and>
     pool_cancelled p' = pool_cancelled p @ map snd (visited ctx i entries) \<and>
     pool_jobs p' = filter (\<lambda>kv. fst kv \<notin> fst ` set (visited ctx i entries)) (pool_jobs p)"
proof (induction entries arbitrary: i p c)
  case Nil
  then show ?case
    by (cases ctx) (auto simp: visited_def)
next
  case (Cons entry rest)
  obtain jid cancel where entry: "entry = (jid, cancel)"
    by (cases entry)
  show ?case
  proof (cases "ctx_Err ctx i")
    case (Some e)
    then show ?thesis
      using Cons.prems by (auto simp: entry visited_stop catcher_Add_def)
  next
    case None
    let ?p1 = "p\<lparr>pool_cancelled := pool_cancelled p @ [cancel],
                  pool_jobs := map_delete jid (pool_jobs p)\<rparr>"
    let ?w1 = "called (Call_Get jid) (pool_queue ?p1)"
    have v: "visited ctx i ((jid, cancel) # rest) = (jid, cancel) # visited ctx (Suc i) rest"
      by (rule visited_Cons [OF None])
    show ?thesis
    proof (cases "Queue_Get Q (qstate (pool_queue p)) jid")
      case G: None
      have "AbortAll_loop Q ctx (Suc i) rest (?p1\<lparr>pool_queue := ?w1\<rparr>) c = (p', c')"
        using Cons.prems None G by (simp add: entry Let_def qstate_called)
      from Cons.IH [OF this] show ?thesis
        using None G by (simp add: entry v qstate_called filter_map_delete [of _ jid _ cancel])
    next
      case G: (Some job)
      obtain err q2 where C: "Queue_Complete Q (qstate (pool_queue p)) job = (err, q2)"
        by (cases "Queue_Complete Q (qstate (pool_queue p)) job")
      let ?w2 = "called (Call_Complete job) ?w1"
      have "AbortAll_loop Q ctx (Suc i) rest (?p1\<lparr>pool_queue := ?w2\<lparr>qstate := q2\<rparr>\<rparr>)
              (catcher_Wrapf c err (''marking job '' @ quoted (Job_ID job) @ '' complete''))
            = (p', c')"
        using Cons.prems None G C by (simp add: entry Let_def qstate_called)
      from Cons.IH [OF this] show ?thesis
        using None G C
        by (cases err)
           (simp_all add: entry v qstate_called filter_map_delete [of _ jid _ cancel]
              catcher_Wrapf_def catcher_Add_def errors_Wrap_def)
    qed
  qed
qed

lemma abort_errors_kinds:
  "x \<in> set (abort_errors Q ctx i entries q) \<Longrightarrow>
     x = ErrContext
     \<or> (\<exists>e (job :: Job). x = ErrWrap e (''marking job '' @ quoted (Job_ID job) @ '' complete''))"
proof (induction entries arbitrary: i q)
  case Nil
  then show ?case by simp
next
  case (Cons entry rest)
  obtain jid cancel where entry: "entry = (jid, cancel)"
    by (cases entry)
  show ?case
  proof (cases "ctx_Err ctx i")
    case (Some e)
    then have "e = ErrContext"
      by (auto simp: ctx_Err_def split: option.splits if_splits)
    then show ?thesis
      using Cons.prems Some by (simp add: entry)
  next
    case None
    show ?thesis
    proof (cases "Queue_Get Q q jid")
      case G: None
      then have "x \<in> set (abort_errors Q ctx (Suc i) rest q)"
        using Cons.prems None by (simp add: entry)
      then show ?thesis
        by (rule Cons.IH)
    next
      case G: (Some job)
      obtain err q2 where C: "Queue_Complete Q q job = (err, q2)"
        by (cases "Queue_Complete Q q job")
      show ?thesis
      proof (cases err)
        case N: None
        then have "x \<in> set (abort_errors Q ctx (Suc i) rest q2)"
          using Cons.prems None G C by (simp add: entry)
        then show ?thesis
          by (rule Cons.IH)
      next
        case S: (Some e)
        then have "x = ErrWrap e (''marking job '' @ quoted (Job_ID job) @ '' complete'')
                   \<or> x \<in> set (abort_errors Q ctx (Suc i) rest q2)"
          using Cons.prems None G C by (simp add: entry)
        then show ?thesis
        proof
          assume "x = ErrWrap e (''marking job '' @ quoted (Job_ID job) @ '' complete'')"
          then show ?thesis
            by - (rule disjI2, rule exI, rule exI, assumption)
        next
          assume "x \<in> set (abort_errors Q ctx (Suc i) rest q2)"
          then show ?thesis
            by (rule Cons.IH)
        qed
      qed
    qed
  qed
qed

lemma abort_errors_none:
  assumes "\<forall>q jid job. Queue_Get Q q jid = Some job \<longrightarrow> fst (Queue_Complete Q q job) = None"
  shows "abort_errors Q None i entries q = []"
proof (induction entries arbitrary: i q)
  case Nil
  then show ?case by simp
next
  case (Cons entry rest)
  obtain jid cancel where entry: "entry = (jid, cancel)"
    by (cases entry)
  have ok: "Queue_Get Q q jid = Some job \<Longrightarrow> Queue_Complete Q q job \<noteq> (Some e, q')" for job e q'
    using assms by (metis fst_conv option.distinct(1))
  show ?case
    using ok by (auto simp: entry ctx_Err_def Cons.IH split: option.splits prod.splits)
qed

text \<open>
  Claim C3, as the code has it. The error \<open>AbortAll\<close> returns combines exactly the
  errors of \<open>abort_errors\<close>, in the order of the iteration: the failure of \<open>Complete\<close>
  for each visited entry whose job the queue's \<open>Get\<close> finds, and the context's error at the
  entry where the context is found cancelled; it is nil when there is none. An entry
  whose job is reported as not found adds no error, whatever was recorded before it, and
  the loop goes on to the next entry. Every visited entry, found or not, has its context
  cancelled and is removed from the table. So when the context is never cancelled and
  \<open>Complete\<close> succeeds for every job that is found, \<open>AbortAll\<close> returns nil and leaves the
  table empty, whether or not jobs of the table are absent from the queue.
\<close>

theorem AbortAll_not_found_skipped:
  "fst (AbortAll Q ctx seed p)
     = catcher_Resolve
         (abort_errors Q ctx 0 (range_order seed (pool_jobs p)) (qstate (pool_queue p))) \<and>
   (\<forall>x \<in> set (abort_errors Q ctx 0 (range_order seed (pool_jobs p)) (qstate (pool_queue p))).
      x = ErrContext
      \<or> (\<exists>e (job :: Job). x = ErrWrap e (''marking job '' @ quoted (Job_ID job) @ '' complete''))) \<and>
   pool_cancelled (snd (AbortAll Q ctx seed p))
     = pool_cancelled p @ map snd (visited ctx 0 (range_order seed (pool_jobs p))) \<and>
   pool_jobs (snd (AbortAll Q ctx seed p))
     = filter (\<lambda>kv. fst kv \<notin> fst ` set (visited ctx 0 (range_order seed (pool_jobs p))))
         (pool_jobs p) \<and>
   (ctx = None
      \<and> (\<forall>q jid job. Queue_Get Q q jid = Some job \<longrightarrow> fst (Queue_Complete Q q job) = None)
    \<longrightarrow> fst (AbortAll Q ctx seed p) = None \<and> pool_jobs (snd (AbortAll Q ctx seed p)) = [])"
proof -
  define es where "es = range_order seed (pool_jobs p)"
  obtain p' c where r: "AbortAll_loop Q ctx 0 es p [] = (p', c)"
    by (cases "AbortAll_loop Q ctx 0 es p []")
  have a: "AbortAll Q ctx seed p = (catcher_Resolve c, p')"
    using r by (simp add: AbortAll_def es_def)
  have s: "c = abort_errors Q ctx 0 es (qstate (pool_queue p))"
    "pool_cancelled p' = pool_cancelled p @ map snd (visited ctx 0 es)"
    "pool_jobs p' = filter (\<lambda>kv. fst kv \<notin> fst ` set (visited ctx 0 es)) (pool_jobs p)"
    using AbortAll_loop_spec [OF r] by simp_all
  have k: "\<forall>x \<in> set (abort_errors Q ctx 0 es (qstate (pool_queue p))).
      x = ErrContext
      \<or> (\<exists>e (job :: Job). x = ErrWrap e (''marking job '' @ quoted (Job_ID job) @ '' complete''))"
    by (rule ballI) (rule abort_errors_kinds)
  have n: "fst (AbortAll Q ctx seed p) = None \<and> pool_jobs (snd (AbortAll Q ctx seed p)) = []"
    if "ctx = None"
      and h: "\<forall>q jid job. Queue_Get Q q jid = Some job \<longrightarrow> fst (Queue_Complete Q q job) = None"
  proof -
    have "c = []"
      using s(1) abort_errors_none [OF h] that(1) by simp
    moreover have "set (visited ctx 0 es) = set (pool_jobs p)"
      using that(1) by (simp add: visited_def es_def set_range_order)
    then have "pool_jobs p' = []"
      using s(3) by (simp add: filter_empty_conv)
    ultimately show ?thesis
      by (simp add: a catcher_Resolve_def)
  qed
  show ?thesis
    using a s k n unfolding es_def by simp
qed

text \<open>
  The job \<open>j2\<close> is in the queue and its \<open>Complete\<close> fails, the job \<open>j1\<close> is not in
  the queue and is visited after it: the failure of \<open>j2\<close> is the only error returned.
  Under a context cancelled from the second check on, the context's error follows it and
  the entry of \<open>j1\<close> stays in the table.
\<close>

lemma example_abort_order:
  "range_order 1 [(''j1'', 3 :: nat), (''j2'', 4)] = [(''j2'', 4), (''j1'', 3)]"
  by simp

lemma example_abort_errors:
  "abort_errors (failing_queue [''j2'']) None 0 [(''j2'', 4), (''j1'', 3)]
     [mk_info ''j2'' ''build'' True False 0 [] 0]
   = [ErrWrap (ErrNew ''boom'') (''marking job '' @ quoted ''j2'' @ '' complete'')]"
  "abort_errors (failing_queue [''j2'']) (Some 1) 0 [(''j2'', 4), (''j1'', 3)]
     [mk_info ''j2'' ''build'' True False 0 [] 0]
   = [ErrWrap (ErrNew ''boom'') (''marking job '' @ quoted ''j2'' @ '' complete''), ErrContext]"
  by (simp_all add: failing_queue_def list_queue_def mk_info_def ctx_Err_def)

theorem AbortAll_not_found_skipped_witness:
  "Queue_Get (failing_queue [''j2'']) [mk_info ''j2'' ''build'' True False 0 [] 0] ''j1'' = None \<and>
   fst (AbortAll (failing_queue [''j2'']) None 1
          (example_pool [(''j1'', 3), (''j2'', 4)] [mk_info ''j2'' ''build'' True False 0 [] 0]))
     = Some (ErrResolved
               [ErrWrap (ErrNew ''boom'') (''marking job '' @ quoted ''j2'' @ '' complete'')]) \<and>
   pool_jobs (snd (AbortAll (failing_queue [''j2'']) None 1
          (example_pool [(''j1'', 3), (''j2'', 4)] [mk_info ''j2'' ''build'' True False 0 [] 0])))
     = [] \<and>
   pool_cancelled (snd (AbortAll (failing_queue [''j2'']) None 1
          (example_pool [(''j1'', 3), (''j2'', 4)] [mk_info ''j2'' ''build'' True False 0 [] 0])))
     = [4, 3] \<and>
   fst (AbortAll (failing_queue [''j2'']) (Some 1) 1
          (example_pool [(''j1'', 3), (''j2'', 4)] [mk_info ''j2'' ''build'' True False 0 [] 0]))
     = Some (ErrResolved
               [ErrWrap (ErrNew ''boom'') (''marking job '' @ quoted ''j2'' @ '' complete''),
                ErrContext]) \<and>
   pool_jobs (snd (AbortAll (failing_queue [''j2'']) (Some 1) 1
          (example_pool [(''j1'', 3), (''j2'', 4)] [mk_info ''j2'' ''build'' True False 0 [] 0])))
     = [(''j1'', 3)] \<and>
   fst (AbortAll (list_queue 0) None 1
          (example_pool [(''j1'', 3), (''j2'', 4)] [mk_info ''j2'' ''build'' True False 0 [] 0]))
     = None"
proof -
  let ?P = "example_pool [(''j1'', 3), (''j2'', 4)] [mk_info ''j2'' ''build'' True False 0 [] 0]"
  have P: "pool_jobs ?P = [(''j1'', 3), (''j2'', 4)]" "pool_cancelled ?P = []"
    "qstate (pool_queue ?P) = [mk_info ''j2'' ''build'' True False 0 [] 0]"
    by (simp_all add: example_pool_def)
  have g: "Queue_Get (failing_queue [''j2'']) [mk_info ''j2'' ''build'' True False 0 [] 0] ''j1''
           = None"
    by (simp add: failing_queue_def list_queue_def mk_info_def)
  have h: "\<forall>q jid job. Queue_Get (list_queue 0) q jid = Some job
             \<longrightarrow> fst (Queue_Complete (list_queue 0) q job) = None"
    by (simp add: list_queue_def)
  have a: "fst (AbortAll (failing_queue [''j2'']) None 1 ?P)
     = Some (ErrResolved
               [ErrWrap (ErrNew ''boom'') (''marking job '' @ quoted ''j2'' @ '' complete'')])"
    "pool_jobs (snd (AbortAll (failing_queue [''j2'']) None 1 ?P)) = []"
    "pool_cancelled (snd (AbortAll (failing_queue [''j2'']) None 1 ?P)) = [4, 3]"
    using AbortAll_not_found_skipped [of "failing_queue [''j2'']" None 1 ?P]
    unfolding P example_abort_order example_abort_errors
    by (simp_all add: catcher_Resolve_def visited_def)
  have b: "fst (AbortAll (failing_queue [''j2'']) (Some 1) 1 ?P)
     = Some (ErrResolved
               [ErrWrap (ErrNew ''boom'') (''marking job '' @ quoted ''j2'' @ '' complete''),
                ErrContext])"
    "pool_jobs (snd (AbortAll (failing_queue [''j2'']) (Some 1) 1 ?P)) = [(''j1'', 3)]"
    using AbortAll_not_found_skipped [of "failing_queue [''j2'']" "Some 1" 1 ?P]
    unfolding P example_abort_order example_abort_errors
    by (simp_all add: catcher_Resolve_def visited_def)
  have c: "fst (AbortAll (list_queue 0) None 1 ?P) = None"
    using AbortAll_not_found_skipped [of "list_queue 0" None 1 ?P] h by blast
  show ?thesis
    using g a b c by blast
qed

text \<open>
  The claim as the spec words it fails on a table with one entry whose job the queue does
  not hold, under a context that is never cancelled: \<open>AbortAll\<close> returns nil.
\<close>

theorem AbortAll_not_found_counterexample:
  "IsRunning (example_pool [(''j1'', 3)] []) ''j1'' \<and>
   Queue_Get (list_queue 0) [] ''j1'' = None \<and>
   AbortAll (list_queue 0) None 0 (example_pool [(''j1'', 3)] [])
     = (None, (example_pool [] [])
          \<lparr>pool_cancelled := [3],
            pool_queue := \<lparr>qstate = [], calls = [Call_Get ''j1'']\<rparr>\<rparr>)"
  by (simp add: IsRunning_def AbortAll_def example_pool_def list_queue_def called_def
        ctx_Err_def map_delete_def catcher_Resolve_def)

subsection \<open>The worker loop and a panicking job\<close>

lemma runJob_keeps:
  "runJob executeJob job p = (r, p') \<Longrightarrow>
     calls (pool_queue p') = calls (pool_queue p) \<and> pool_wg p' = pool_wg p
     \<and> pool_spawned p' = pool_spawned p"
  by (auto simp: runJob_def addCanceler_def Let_def split: exec.splits)

lemma worker_loop_keeps:
  "worker_loop Q executeJob events vars p = (e, vars', p') \<Longrightarrow>
     var_job vars' = var_job vars \<and> pool_wg p' = pool_wg p \<and> pool_spawned p' = pool_spawned p
     \<and> set (calls (pool_queue p')) \<subseteq> insert Call_Next (set (calls (pool_queue p)))"
proof (induction Q executeJob events vars p arbitrary: e vars' p' rule: worker_loop.induct)
  case (1 Q executeJob vars p)
  then show ?case by auto
next
  case (2 Q executeJob rest vars p)
  then show ?case by auto
next
  case (3 Q executeJob rest vars p)
  let ?w1 = "called Call_Next (pool_queue p)"
  obtain job q1 where n: "Queue_Next Q (qstate ?w1) = (job, q1)"
    by (cases "Queue_Next Q (qstate ?w1)")
  let ?p1 = "p\<lparr>pool_queue := ?w1\<lparr>qstate := q1\<rparr>\<rparr>"
  have c1: "calls (pool_queue ?p1) = calls (pool_queue p) @ [Call_Next]"
    by (simp add: called_def)
  show ?case
  proof (cases job)
    case None
    then have "worker_loop Q executeJob rest vars ?p1 = (e, vars', p')"
      using "3.prems" n by (simp add: Let_def)
    then have "var_job vars' = var_job vars \<and> pool_wg p' = pool_wg ?p1
        \<and> pool_spawned p' = pool_spawned ?p1
        \<and> set (calls (pool_queue p')) \<subseteq> insert Call_Next (set (calls (pool_queue ?p1)))"
      by (rule "3.IH"(1) [OF refl refl n [symmetric] refl None])
    then show ?thesis
      using c1 by auto
  next
    case (Some j)
    let ?cancel = "pool_next_ctx ?p1"
    let ?vars1 = "vars\<lparr>var_cancel := Some ?cancel\<rparr>"
    let ?p2 = "?p1\<lparr>pool_next_ctx := Suc (pool_next_ctx ?p1)\<rparr>"
    obtain r p3 where rj: "runJob executeJob j ?p2 = (r, p3)"
      by (cases "runJob executeJob j ?p2")
    have k3: "calls (pool_queue p3) = calls (pool_queue p) @ [Call_Next]"
      "pool_wg p3 = pool_wg p" "pool_spawned p3 = pool_spawned p"
      using runJob_keeps [OF rj] by (simp_all add: called_def)
    show ?thesis
    proof (cases r)
      case None
      let ?p4 = "p3\<lparr>pool_cancelled := pool_cancelled p3 @ [?cancel]\<rparr>"
      have "worker_loop Q executeJob rest ?vars1 ?p4 = (e, vars', p')"
        using "3.prems" n Some rj None by (simp add: Let_def)
      then have "var_job vars' = var_job ?vars1 \<and> pool_wg p' = pool_wg ?p4
        \<and> pool_spawned p' = pool_spawned ?p4
        \<and> set (calls (pool_queue p')) \<subseteq> insert Call_Next (set (calls (pool_queue ?p4)))"
        by (rule "3.IH"(2) [OF refl refl n [symmetric] refl Some refl refl refl rj [symmetric] None])
      then show ?thesis
        using k3 by auto
    next
      case (Some v)
      then have "e = Panicked v" "vars' = ?vars1" "p' = p3"
        using "3.prems" n \<open>job = Some j\<close> rj by (simp_all add: Let_def)
      then show ?thesis
        using k3 by auto
    qed
  qed
qed


lemma worker_deferred_no_job:
  "var_job vars = None \<Longrightarrow>
     pool_queue (worker_deferred Q recovered vars p) = pool_queue p \<and>
     pool_wg (worker_deferred Q recovered vars p) = pool_wg p - 1 \<and>
     pool_spawned (worker_deferred Q recovered vars p)
       = (case recovered of None \<Rightarrow> pool_spawned p | Some v \<Rightarrow> Suc (pool_spawned p))"
  by (simp add: worker_deferred_def recovery_HandlePanicWithError_def Let_def
        split: option.splits)

lemma worker_never_completes:
  "set (calls (pool_queue (worker Q executeJob events p)))
     \<subseteq> insert Call_Next (set (calls (pool_queue p)))"
proof -
  let ?vars = "\<lparr>var_err = None, var_job = None, var_cancel = None\<rparr>"
  let ?p = "p\<lparr>pool_wg := pool_wg p + 1\<rparr>"
  obtain e vars' p' where l: "worker_loop Q executeJob events ?vars ?p = (e, vars', p')"
    by (cases "worker_loop Q executeJob events ?vars ?p")
  have k: "var_job vars' = None"
    "set (calls (pool_queue p')) \<subseteq> insert Call_Next (set (calls (pool_queue p)))"
    using worker_loop_keeps [OF l] by simp_all
  show ?thesis
    using k worker_deferred_no_job [OF k(1), of Q _ p']
    by (cases e) (simp_all add: worker_def l)
qed

lemma worker_panic_keeps_capacity:
  assumes "fst (worker_loop Q executeJob events
                  \<lparr>var_err = None, var_job = None, var_cancel = None\<rparr>
                  (p\<lparr>pool_wg := pool_wg p + 1\<rparr>)) = Panicked v"
  shows "pool_wg (worker Q executeJob events p) = pool_wg p"
    and "pool_spawned (worker Q executeJob events p) = Suc (pool_spawned p)"
    and "pool_wg (worker Q executeJob [] (worker Q executeJob events p)) = pool_wg p + 1"
proof -
  let ?vars = "\<lparr>var_err = None, var_job = None, var_cancel = None\<rparr>"
  let ?p = "p\<lparr>pool_wg := pool_wg p + 1\<rparr>"
  obtain vars' p' where l: "worker_loop Q executeJob events ?vars ?p = (Panicked v, vars', p')"
    using assms by (cases "worker_loop Q executeJob events ?vars ?p") simp
  have k: "var_job vars' = None" "pool_wg p' = pool_wg p + 1" "pool_spawned p' = pool_spawned p"
    using worker_loop_keeps [OF l] by simp_all
  show a: "pool_wg (worker Q executeJob events p) = pool_wg p"
    using k worker_deferred_no_job [OF k(1), of Q "Some v" p'] by (simp add: worker_def l)
  show "pool_spawned (worker Q executeJob events p) = Suc (pool_spawned p)"
    using k worker_deferred_no_job [OF k(1), of Q "Some v" p'] by (simp add: worker_def l)
  show "pool_wg (worker Q executeJob [] (worker Q executeJob events p)) = pool_wg p + 1"
    using a by (simp add: worker_def [of Q executeJob "[]"])
qed

text \<open>
  Claim C6, at an input where the code departs from it. A pool of size two has one worker
  in its loop and starts the second; the queue hands that worker the job \<open>j1\<close> and
  the execution of \<open>j1\<close> panics. The deferred function launches the replacement, and
  once it runs the pool has two worker loops again. But the deferred function finds the
  \<open>job\<close> of the \<open>var\<close> block nil, since the loop assigned a variable of its own: no
  error is attached to \<open>j1\<close> and \<open>Complete\<close> is never called, the only queue call is
  the \<open>Next\<close> of the loop, and \<open>j1\<close> stays in progress in the queue.
\<close>

theorem worker_panic_job_not_completed:
  "worker (list_queue 0) panicking [Timer_C] example_started
     = \<lparr>pool_size = 2, pool_started = True, pool_wg = 1, pool_jobs = [],
        pool_cancelled = [10], pool_next_ctx = 12, pool_spawned = 3,
        pool_queue = \<lparr>qstate = [mk_info ''j1'' ''build'' True False 0 [] 0],
                       calls = [Call_Next]\<rparr>\<rparr> \<and>
   pool_wg (worker (list_queue 0) panicking []
              (worker (list_queue 0) panicking [Timer_C] example_started)) = 2"
  by (simp add: worker_def worker_deferred_def runJob_def addCanceler_def list_queue_def
        mk_info_def example_started_def example_pool_def panicking_def called_def
        recovery_HandlePanicWithError_def map_set_def map_delete_def)

end
